theory Spec2Isabelle
  imports Main "HOL-Library.AList" "HOL-Library.Sublist"
begin

section \<open>Python values, exceptions and the HTTP boundary\<close>

text \<open>
  The clients in \<^verbatim>\<open>pylinks/api/github.py\<close> and \<^verbatim>\<open>pylinks/api/doi.py\<close> exchange
  decoded JSON with a transport function. A decoded JSON value, and any Python argument
  whose run-time type the code inspects with \<^verbatim>\<open>isinstance\<close>, is a \<open>json\<close> value.
  A Python \<^verbatim>\<open>str\<close> is a \<open>string\<close>; one \<open>char\<close> stands for one character, so the
  model covers the strings whose code points lie in 0..255. JSON numbers are the
  integers. A \<^verbatim>\<open>dict\<close> is an association list in insertion order, read with
  \<open>map_of\<close> and written with \<open>AList.update\<close> (replace in place, else append).
\<close>

datatype json =
    JNull
  | JBool bool
  | JInt int
  | JStr string
  | JList "json list"
  | JDict "(string \<times> json) list"

text \<open>
  Exceptions are values. \<open>Transport e\<close> is whatever the transport function raised,
  carried unchanged; the other three are the built-in exceptions the client code raises
  itself or provokes (a missing key, a value that is not iterable or not subscriptable).
\<close>

datatype 'e exn = TypeError | ValueError | KeyError | Transport 'e

text \<open>
  Modelled from the spec: the URL object of \<^verbatim>\<open>pylinks.url\<close> is not among the sources.
  Only its constructor \<^verbatim>\<open>url(base)\<close> and the path-append operator \<^verbatim>\<open>u / segment\<close> are
  used by the clients, so a URL is kept as the term that built it.
\<close>

datatype url = Url string | Div url string

text \<open>
  One call of \<^verbatim>\<open>pylinks.request(verb=, url=, headers=, data=, json=, response_type=)\<close>.
\<close>

record http_request =
  rq_verb :: string
  rq_url :: url
  rq_headers :: "(string \<times> string) list"
  rq_data :: "string option"
  rq_json :: "json option"
  rq_response_type :: "string option"

text \<open>
  Modelled from the spec: \<^verbatim>\<open>pylinks.http.request\<close> is not among the sources. By section 6
  of the specification it returns the decoded response or raises; it is the parameter
  \<open>tr\<close>, a function from the request to either what it raised or the decoded value.
  Every call is appended to the log of requests issued so far, which is the only state
  the clients change.
\<close>

definition request ::
  "(http_request \<Rightarrow> 'e + json) \<Rightarrow> http_request \<Rightarrow> http_request list
     \<Rightarrow> ('e exn + json) \<times> http_request list" where
  "request tr r log =
     ((case tr r of Inl e \<Rightarrow> Inl (Transport e) | Inr v \<Rightarrow> Inr v), log @ [r])"

subsection \<open>Python built-ins used by the clients\<close>

text \<open>
  \<^verbatim>\<open>str(n)\<close> for an integer: decimal digits, with a sign for negative numbers.
  \<open>digit_char\<close> is only applied to numbers below ten.
\<close>

definition digit_char :: "nat \<Rightarrow> char" where
  "digit_char d = ''0123456789'' ! d"

function str_nat :: "nat \<Rightarrow> string" where
  "str_nat n = (if n < 10 then [digit_char n] else str_nat (n div 10) @ [digit_char (n mod 10)])"
  by pat_completeness auto
termination
  by (relation "measure id") auto

declare str_nat.simps [simp del]

definition str_int :: "int \<Rightarrow> string" where
  "str_int i = (if i < 0 then CHR ''-'' # str_nat (nat (- i)) else str_nat (nat i))"

text \<open>Truthiness of an optional string: \<^verbatim>\<open>None\<close> and \<^verbatim>\<open>""\<close> are false.\<close>

definition truthy :: "string option \<Rightarrow> bool" where
  "truthy s = (case s of None \<Rightarrow> False | Some t \<Rightarrow> t \<noteq> [])"

text \<open>\<^verbatim>\<open>d | e\<close> on dictionaries: a copy of \<open>d\<close> updated with the items of \<open>e\<close> in order.\<close>

definition dict_or :: "('k \<times> 'v) list \<Rightarrow> ('k \<times> 'v) list \<Rightarrow> ('k \<times> 'v) list" where
  "dict_or d e = foldl (\<lambda>acc kv. AList.update (fst kv) (snd kv) acc) d e"

text \<open>
  Iterating a value, as \<^verbatim>\<open>list.extend\<close> does: a list gives its items, a dict its keys,
  a string its characters; anything else is not iterable (\<open>None\<close>, a \<^verbatim>\<open>TypeError\<close>).
  \<^verbatim>\<open>len\<close> of an iterable value is the number of items the iteration gives.
\<close>

fun py_iter :: "json \<Rightarrow> json list option" where
  "py_iter (JList xs) = Some xs"
| "py_iter (JDict kvs) = Some (map JStr (remdups (map fst kvs)))"
| "py_iter (JStr s) = Some (map (\<lambda>c. JStr [c]) s)"
| "py_iter _ = None"

text \<open>\<^verbatim>\<open>key in v\<close> for a string key, and \<^verbatim>\<open>v[key]\<close> for a string key.\<close>

fun py_contains :: "string \<Rightarrow> json \<Rightarrow> 'e exn + bool" where
  "py_contains key (JDict kvs) = Inr (key \<in> set (map fst kvs))"
| "py_contains key (JList xs) = Inr (JStr key \<in> set xs)"
| "py_contains key (JStr s) = Inr (sublist key s)"
| "py_contains key _ = Inl TypeError"

fun py_getitem :: "json \<Rightarrow> string \<Rightarrow> 'e exn + json" where
  "py_getitem (JDict kvs) key = (case map_of kvs key of None \<Rightarrow> Inl KeyError | Some v \<Rightarrow> Inr v)"
| "py_getitem _ key = Inl TypeError"

section \<open>The GitHub client\<close>

record github =
  gh_endpoint :: "(string \<times> url) list"
  gh_token :: "string option"
  gh_headers :: "(string \<times> string) list"

text \<open>\<^verbatim>\<open>GitHub.__init__\<close>: the bearer header is added when the token is truthy.\<close>

definition GitHub_init :: "string option \<Rightarrow> github" where
  "GitHub_init token =
     \<lparr> gh_endpoint = [(''api'', Url ''https://api.github.com''),
                      (''upload'', Url ''https://uploads.github.com'')],
       gh_token = token,
       gh_headers =
         (case token of
            None \<Rightarrow> [(''X-GitHub-Api-Version'', ''2022-11-28'')]
          | Some t \<Rightarrow>
              if t \<noteq> []
              then AList.update ''Authorization'' (''Bearer '' @ t)
                     [(''X-GitHub-Api-Version'', ''2022-11-28'')]
              else [(''X-GitHub-Api-Version'', ''2022-11-28'')]) \<rparr>"

text \<open>\<^verbatim>\<open>GitHub.authenticated\<close>: \<^verbatim>\<open>self._token is not None\<close>.\<close>

definition authenticated :: "github \<Rightarrow> bool" where
  "authenticated self = (gh_token self \<noteq> None)"

text \<open>
  \<^verbatim>\<open>headers = self._headers | extra_headers if extra_headers else self._headers\<close>,
  the first statement of all three query methods.
\<close>

definition merged_headers ::
  "github \<Rightarrow> (string \<times> string) list option \<Rightarrow> (string \<times> string) list" where
  "merged_headers self extra_headers =
     (case extra_headers of
        None \<Rightarrow> gh_headers self
      | Some extra \<Rightarrow> if extra \<noteq> [] then dict_or (gh_headers self) extra else gh_headers self)"

definition rest_query ::
  "(http_request \<Rightarrow> 'e + json) \<Rightarrow> github \<Rightarrow> string \<Rightarrow> string \<Rightarrow> string option
     \<Rightarrow> json option \<Rightarrow> string option \<Rightarrow> (string \<times> string) list option \<Rightarrow> string
     \<Rightarrow> http_request list \<Rightarrow> ('e exn + json) \<times> http_request list" where
  "rest_query tr self query verb data js response_type extra_headers endpoint log =
     (case map_of (gh_endpoint self) endpoint of
        None \<Rightarrow> (Inl KeyError, log)
      | Some base \<Rightarrow>
          request tr
            \<lparr> rq_verb = verb, rq_url = Div base query,
              rq_headers = merged_headers self extra_headers,
              rq_data = data, rq_json = js, rq_response_type = response_type \<rparr> log)"

definition graphql_query ::
  "(http_request \<Rightarrow> 'e + json) \<Rightarrow> github \<Rightarrow> string \<Rightarrow> bool
     \<Rightarrow> (string \<times> string) list option \<Rightarrow> string option
     \<Rightarrow> http_request list \<Rightarrow> ('e exn + json) \<times> http_request list" where
  "graphql_query tr self query mutation extra_headers response_type log =
     (case map_of (gh_endpoint self) ''api'' of
        None \<Rightarrow> (Inl KeyError, log)
      | Some base \<Rightarrow>
          request tr
            \<lparr> rq_verb = ''POST'', rq_url = Div base ''graphql'',
              rq_headers = merged_headers self extra_headers,
              rq_data = None,
              rq_json = Some (JDict [(''query'',
                 JStr ((if mutation then ''mutation '' else '''') @ ''{'' @ query @ ''}''))]),
              rq_response_type = response_type \<rparr> log)"

definition graphql_mutation ::
  "(http_request \<Rightarrow> 'e + json) \<Rightarrow> github \<Rightarrow> string \<Rightarrow> string \<Rightarrow> json \<Rightarrow> string
     \<Rightarrow> (string \<times> string) list option
     \<Rightarrow> http_request list \<Rightarrow> ('e exn + json) \<times> http_request list" where
  "graphql_mutation tr self mutation_name mutation_input_name mutation_input
       mutation_payload extra_headers log =
     (case map_of (gh_endpoint self) ''api'' of
        None \<Rightarrow> (Inl KeyError, log)
      | Some base \<Rightarrow>
          (case request tr
             \<lparr> rq_verb = ''POST'', rq_url = Div base ''graphql'',
               rq_headers = merged_headers self extra_headers,
               rq_data = None,
               rq_json = Some (JDict
                 [(''query'', JStr (''mutation($mutationInput:'' @ mutation_input_name @ ''!) ''
                     @ ''{'' @ mutation_name @ ''(input:$mutationInput) {''
                     @ mutation_payload @ ''}}'')),
                  (''variables'', JDict [(''mutationInput'', mutation_input)])]),
               rq_response_type = Some ''json'' \<rparr> log of
             (Inl e, log1) \<Rightarrow> (Inl e, log1)
           | (Inr response, log1) \<Rightarrow>
               (case py_contains ''errors'' response of
                  Inl e \<Rightarrow> (Inl e, log1)
                | Inr True \<Rightarrow> (Inr response, log1)
                | Inr False \<Rightarrow> (py_getitem response ''data'', log1))))"

section \<open>The repository client\<close>

record repo =
  rp_username :: string
  rp_name :: string
  rp_token :: "string option"
  rp_github :: github

definition Repo_init :: "string \<Rightarrow> string \<Rightarrow> string option \<Rightarrow> repo" where
  "Repo_init username name token =
     \<lparr> rp_username = username, rp_name = name, rp_token = token,
       rp_github = GitHub_init token \<rparr>"

definition Repo_rest_query ::
  "(http_request \<Rightarrow> 'e + json) \<Rightarrow> repo \<Rightarrow> string \<Rightarrow> string \<Rightarrow> string option
     \<Rightarrow> json option \<Rightarrow> string option \<Rightarrow> (string \<times> string) list option \<Rightarrow> string
     \<Rightarrow> http_request list \<Rightarrow> ('e exn + json) \<times> http_request list" where
  "Repo_rest_query tr self query verb data js response_type extra_headers endpoint log =
     rest_query tr (rp_github self)
       (''repos/'' @ rp_username self @ ''/'' @ rp_name self @ ''/'' @ query)
       verb data js response_type extra_headers endpoint log"

text \<open>
  A call that leaves every keyword of \<^verbatim>\<open>Repo._rest_query\<close> at its default:
  \<^verbatim>\<open>verb="GET", data=None, json=None, response_type="json", extra_headers=None,
  endpoint="api"\<close>.
\<close>

definition Repo_get ::
  "(http_request \<Rightarrow> 'e + json) \<Rightarrow> repo \<Rightarrow> string
     \<Rightarrow> http_request list \<Rightarrow> ('e exn + json) \<times> http_request list" where
  "Repo_get tr self query log =
     Repo_rest_query tr self query ''GET'' None None (Some ''json'') None ''api'' log"

subsection \<open>Paginated listings\<close>

text \<open>
  \<^verbatim>\<open>Repo.branches\<close>, \<^verbatim>\<open>Repo.labels\<close>, \<^verbatim>\<open>Repo.issue_labels\<close>, \<^verbatim>\<open>Repo.issue_comments\<close> and
  \<^verbatim>\<open>Repo.pull_list\<close> run the same loop:
  \<^verbatim>\<open>
  items = []
  page = 1
  while True:
      response = self._rest_query(<query for page>)
      items.extend(response)
      page += 1
      if len(response) < 100 [or len(items) >= max_count]:
          break
  return items
  \<close>
  They differ in the query string and in the bracketed test, which only
  \<^verbatim>\<open>issue_comments\<close> has. The loop is embedded once, with the query as a function of the
  page and the cap as an option (\<open>None\<close> for the four loops without the test). It need
  not end: a server that answers every page with 100 items keeps it running, and then the
  value is \<open>None\<close>.
\<close>

partial_function (option) page_loop ::
  "(http_request \<Rightarrow> 'e + json) \<Rightarrow> repo \<Rightarrow> (nat \<Rightarrow> string) \<Rightarrow> int option
     \<Rightarrow> json list \<Rightarrow> nat \<Rightarrow> http_request list
     \<Rightarrow> (('e exn + json list) \<times> http_request list) option" where
  "page_loop tr self query max_count items page log =
     (case Repo_get tr self (query page) log of
        (Inl e, log1) \<Rightarrow> Some (Inl e, log1)
      | (Inr response, log1) \<Rightarrow>
          (case py_iter response of
             None \<Rightarrow> Some (Inl TypeError, log1)
           | Some xs \<Rightarrow>
               if length xs < 100
                  \<or> (case max_count of None \<Rightarrow> False
                      | Some m \<Rightarrow> m \<le> int (length (items @ xs)))
               then Some (Inr (items @ xs), log1)
               else page_loop tr self query max_count (items @ xs) (page + 1) log1))"

definition branches_query :: "nat \<Rightarrow> string" where
  "branches_query page = ''branches?per_page=100&page='' @ str_nat page"

definition Repo_branches ::
  "(http_request \<Rightarrow> 'e + json) \<Rightarrow> repo \<Rightarrow> http_request list
     \<Rightarrow> (('e exn + json list) \<times> http_request list) option" where
  "Repo_branches tr self log = page_loop tr self branches_query None [] 1 log"

definition labels_query :: "nat \<Rightarrow> string" where
  "labels_query page = ''labels?per_page=100&page='' @ str_nat page"

definition Repo_labels ::
  "(http_request \<Rightarrow> 'e + json) \<Rightarrow> repo \<Rightarrow> http_request list
     \<Rightarrow> (('e exn + json list) \<times> http_request list) option" where
  "Repo_labels tr self log = page_loop tr self labels_query None [] 1 log"

definition issue_labels_query :: "int \<Rightarrow> nat \<Rightarrow> string" where
  "issue_labels_query number page =
     ''issues/'' @ str_int number @ ''/labels?per_page=100&page='' @ str_nat page"

definition Repo_issue_labels ::
  "(http_request \<Rightarrow> 'e + json) \<Rightarrow> repo \<Rightarrow> int \<Rightarrow> http_request list
     \<Rightarrow> (('e exn + json list) \<times> http_request list) option" where
  "Repo_issue_labels tr self number log =
     page_loop tr self (issue_labels_query number) None [] 1 log"

definition issue_comments_query :: "int \<Rightarrow> nat \<Rightarrow> string" where
  "issue_comments_query number page =
     ''issues/'' @ str_int number @ ''/comments?per_page=100&page='' @ str_nat page"

definition Repo_issue_comments ::
  "(http_request \<Rightarrow> 'e + json) \<Rightarrow> repo \<Rightarrow> int \<Rightarrow> int \<Rightarrow> http_request list
     \<Rightarrow> (('e exn + json list) \<times> http_request list) option" where
  "Repo_issue_comments tr self number max_count log =
     page_loop tr self (issue_comments_query number) (Some max_count) [] 1 log"

definition pull_list_query ::
  "string \<Rightarrow> string option \<Rightarrow> string option \<Rightarrow> string \<Rightarrow> string \<Rightarrow> nat \<Rightarrow> string" where
  "pull_list_query state head base srt direction page =
     ''pulls?state='' @ state @ ''&sort='' @ srt @ ''&direction='' @ direction
       @ ''&per_page=100''
       @ (case head of None \<Rightarrow> [] | Some h \<Rightarrow> if h \<noteq> [] then ''&head='' @ h else [])
       @ (case base of None \<Rightarrow> [] | Some b \<Rightarrow> if b \<noteq> [] then ''&base='' @ b else [])
       @ ''&page='' @ str_nat page"

definition Repo_pull_list ::
  "(http_request \<Rightarrow> 'e + json) \<Rightarrow> repo \<Rightarrow> string \<Rightarrow> string option \<Rightarrow> string option
     \<Rightarrow> string \<Rightarrow> string \<Rightarrow> http_request list
     \<Rightarrow> (('e exn + json list) \<times> http_request list) option" where
  "Repo_pull_list tr self state head base srt direction log =
     page_loop tr self (pull_list_query state head base srt direction) None [] 1 log"

subsection \<open>Operations that assemble a JSON payload\<close>

text \<open>
  \<^verbatim>\<open>Repo.issue_update(number, title=None, body=None, state=None, state_reason=None)\<close>.
  The title is annotated \<^verbatim>\<open>str | int | None\<close> and passed through \<^verbatim>\<open>str\<close>; the body is
  annotated \<^verbatim>\<open>str | None\<close>, for which \<^verbatim>\<open>str(body)\<close> is the body itself.
\<close>

datatype str_or_int = PStr string | PInt int

fun py_str :: "str_or_int \<Rightarrow> string" where
  "py_str (PStr s) = s"
| "py_str (PInt i) = str_int i"

definition Repo_issue_update ::
  "(http_request \<Rightarrow> 'e + json) \<Rightarrow> repo \<Rightarrow> int \<Rightarrow> str_or_int option \<Rightarrow> string option
     \<Rightarrow> string option \<Rightarrow> string option
     \<Rightarrow> http_request list \<Rightarrow> ('e exn + json) \<times> http_request list" where
  "Repo_issue_update tr self number title body state state_reason log =
     (let data = [];
          data = (case title of None \<Rightarrow> data
                  | Some t \<Rightarrow> AList.update ''title'' (JStr (py_str t)) data);
          data = (case body of None \<Rightarrow> data
                  | Some b \<Rightarrow> AList.update ''body'' (JStr b) data);
          data = (case state of None \<Rightarrow> data
                  | Some s \<Rightarrow> AList.update ''state'' (JStr s) data);
          data = (case state_reason of None \<Rightarrow> data
                  | Some r \<Rightarrow> AList.update ''state_reason'' (JStr r) data)
      in Repo_rest_query tr self (''issues/'' @ str_int number) ''PATCH'' None
           (Some (JDict data)) (Some ''json'') None ''api'' log)"

text \<open>
  \<^verbatim>\<open>Repo.pull_merge(number, commit_title=None, commit_message=None, sha=None,
  merge_method=None)\<close>; the request carries \<^verbatim>\<open>json=data if data else None\<close>.
\<close>

definition Repo_pull_merge ::
  "(http_request \<Rightarrow> 'e + json) \<Rightarrow> repo \<Rightarrow> int \<Rightarrow> string option \<Rightarrow> string option
     \<Rightarrow> string option \<Rightarrow> string option
     \<Rightarrow> http_request list \<Rightarrow> ('e exn + json) \<times> http_request list" where
  "Repo_pull_merge tr self number commit_title commit_message sha merge_method log =
     (let data = [];
          data = (case commit_title of None \<Rightarrow> data
                  | Some t \<Rightarrow> AList.update ''commit_title'' (JStr t) data);
          data = (case commit_message of None \<Rightarrow> data
                  | Some m \<Rightarrow> AList.update ''commit_message'' (JStr m) data);
          data = (case sha of None \<Rightarrow> data
                  | Some h \<Rightarrow> AList.update ''sha'' (JStr h) data);
          data = (case merge_method of None \<Rightarrow> data
                  | Some m \<Rightarrow> AList.update ''merge_method'' (JStr m) data)
      in Repo_rest_query tr self (''pulls/'' @ str_int number @ ''/merge'') ''PUT'' None
           (if data \<noteq> [] then Some (JDict data) else None) (Some ''json'') None ''api'' log)"

subsection \<open>Validated operations\<close>

text \<open>
  The two patterns are matched with \<^verbatim>\<open>re.match\<close>, which anchors at the start. \<^verbatim>\<open>$\<close>
  holds at the end of the string and also just before a newline that ends the string
  (\<open>at_end\<close>). A greedy character-class repetition followed by \<^verbatim>\<open>$\<close> takes the longest
  run of class characters: giving one back leaves a class character ahead, where \<^verbatim>\<open>$\<close>
  fails.
\<close>

definition at_end :: "string \<Rightarrow> bool" where
  "at_end r = (r = [] \<or> r = [CHR 0x0A])"

definition lower_alnum :: string where
  "lower_alnum = ''abcdefghijklmnopqrstuvwxyz0123456789''"

definition hex_digits :: string where
  "hex_digits = ''0123456789abcdefABCDEF''"

text \<open>\<^verbatim>\<open>re.compile(r"^[a-z0-9][a-z0-9\-]*$").match(topic)\<close>\<close>

definition topic_pattern_match :: "string \<Rightarrow> bool" where
  "topic_pattern_match topic =
     (case topic of
        [] \<Rightarrow> False
      | c # cs \<Rightarrow>
          c \<in> set lower_alnum
          \<and> at_end (dropWhile (\<lambda>x. x \<in> set (lower_alnum @ ''-'')) cs))"

text \<open>\<^verbatim>\<open>re.compile(r"^[0-9a-fA-F]{6}$").match(color)\<close>\<close>

definition color_pattern_match :: "string \<Rightarrow> bool" where
  "color_pattern_match color =
     (6 \<le> length color
      \<and> list_all (\<lambda>x. x \<in> set hex_digits) (take 6 color)
      \<and> at_end (drop 6 color))"

text \<open>
  The \<^verbatim>\<open>for topic in topics\<close> loop of \<^verbatim>\<open>Repo.repo_topics_replace\<close>: the first topic
  that fails a test raises; \<open>None\<close> when the loop runs to its end.
\<close>

fun check_topics :: "json list \<Rightarrow> 'e exn option" where
  "check_topics [] = None"
| "check_topics (JStr topic # topics) =
     (if 50 < length topic then Some ValueError
      else if \<not> topic_pattern_match topic then Some ValueError
      else check_topics topics)"
| "check_topics (_ # topics) = Some TypeError"

definition Repo_repo_topics_replace ::
  "(http_request \<Rightarrow> 'e + json) \<Rightarrow> repo \<Rightarrow> json list
     \<Rightarrow> http_request list \<Rightarrow> ('e exn + json) \<times> http_request list" where
  "Repo_repo_topics_replace tr self topics log =
     (case check_topics topics of
        Some e \<Rightarrow> (Inl e, log)
      | None \<Rightarrow>
          Repo_rest_query tr self ''topics'' ''PUT'' None
            (Some (JDict [(''names'', JList topics)])) (Some ''json'') None ''api'' log)"

text \<open>
  \<^verbatim>\<open>Repo._validate_label_data(name, color, description)\<close>: the three arguments must be
  strings; a non-empty color must match the pattern; the description has at most 100
  characters. \<open>None\<close> is the plain \<^verbatim>\<open>return\<close>.
\<close>

fun validate_label_data :: "json \<Rightarrow> json \<Rightarrow> json \<Rightarrow> 'e exn option" where
  "validate_label_data (JStr name) (JStr color) (JStr description) =
     (if color \<noteq> [] \<and> \<not> color_pattern_match color then Some ValueError
      else if 100 < length description then Some ValueError
      else None)"
| "validate_label_data _ _ _ = Some TypeError"

text \<open>Truthiness of a value, as in \<^verbatim>\<open>if color:\<close>.\<close>

fun py_truthy :: "json \<Rightarrow> bool" where
  "py_truthy JNull = False"
| "py_truthy (JBool b) = b"
| "py_truthy (JInt i) = (i \<noteq> 0)"
| "py_truthy (JStr s) = (s \<noteq> [])"
| "py_truthy (JList xs) = (xs \<noteq> [])"
| "py_truthy (JDict kvs) = (kvs \<noteq> [])"

definition Repo_label_create ::
  "(http_request \<Rightarrow> 'e + json) \<Rightarrow> repo \<Rightarrow> json \<Rightarrow> json \<Rightarrow> json
     \<Rightarrow> http_request list \<Rightarrow> ('e exn + json) \<times> http_request list" where
  "Repo_label_create tr self name color description log =
     (case validate_label_data name color description of
        Some e \<Rightarrow> (Inl e, log)
      | None \<Rightarrow>
          (let data = [(''name'', name)];
               data = (if py_truthy color then AList.update ''color'' color data else data);
               data = (if py_truthy description
                       then AList.update ''description'' description data else data)
           in Repo_rest_query tr self ''labels'' ''POST'' None
                (Some (JDict data)) (Some ''json'') None ''api'' log))"

subsection \<open>Branch protection rules\<close>

text \<open>
  \<^verbatim>\<open>Repo._prepare_branch_protection_rule_input(kwargs)\<close> is the comprehension
  \<^verbatim>\<open>{arg_map[k]: v for k, v in kwargs.items() if v is not None}\<close>; a key outside
  \<^verbatim>\<open>arg_map\<close> with a value other than \<^verbatim>\<open>None\<close> raises \<^verbatim>\<open>KeyError\<close>.
\<close>

definition arg_map :: "(string \<times> string) list" where
  "arg_map =
     [(''rule_id'', ''branchProtectionRuleId''),
      (''pattern'', ''pattern''),
      (''allow_deletions'', ''allowsDeletions''),
      (''allow_force_pushes'', ''allowsForcePushes''),
      (''block_creations'', ''blocksCreations''),
      (''bypass_force_push_actor_ids'', ''bypassForcePushActorIds''),
      (''bypass_pull_request_actor_ids'', ''bypassPullRequestActorIds''),
      (''dismiss_stale_reviews'', ''dismissesStaleReviews''),
      (''enforce_admins'', ''isAdminEnforced''),
      (''lock_allows_fetch_and_merge'', ''lockAllowsFetchAndMerge''),
      (''lock_branch'', ''lockBranch''),
      (''push_actor_ids'', ''pushActorIds''),
      (''require_last_push_approval'', ''requireLastPushApproval''),
      (''required_approving_review_count'', ''requiredApprovingReviewCount''),
      (''required_deployment_environments'', ''requiredDeploymentEnvironments''),
      (''required_status_check_contexts'', ''requiredStatusCheckContexts''),
      (''require_approving_reviews'', ''requiresApprovingReviews''),
      (''require_codeowner_reviews'', ''requiresCodeOwnerReviews''),
      (''require_commit_signatures'', ''requiresCommitSignatures''),
      (''require_conversation_resolution'', ''requiresConversationResolution''),
      (''require_deployments'', ''requiresDeployments''),
      (''require_linear_history'', ''requiresLinearHistory''),
      (''require_status_checks'', ''requiresStatusChecks''),
      (''require_status_checks_strict'', ''requiresStrictStatusChecks''),
      (''restrict_push'', ''restrictsPushes''),
      (''restrict_review_dismissals'', ''restrictsReviewDismissals''),
      (''review_dismissal_actor_ids'', ''reviewDismissalActorIds'')]"

fun prepare_branch_protection_rule_input ::
  "(string \<times> json) list \<Rightarrow> (string \<times> json) list \<Rightarrow> 'e exn + (string \<times> json) list" where
  "prepare_branch_protection_rule_input acc [] = Inr acc"
| "prepare_branch_protection_rule_input acc ((k, v) # kwargs) =
     (if v = JNull then prepare_branch_protection_rule_input acc kwargs
      else (case map_of arg_map k of
              None \<Rightarrow> Inl KeyError
            | Some k' \<Rightarrow>
                prepare_branch_protection_rule_input (AList.update k' v acc) kwargs))"

text \<open>
  \<^verbatim>\<open>Repo.branch_protection_rule_create\<close>, with \<open>data\<close> the dictionary of its keyword
  arguments (\<^verbatim>\<open>locals()\<close> without \<^verbatim>\<open>self\<close>). \<^verbatim>\<open>self.info\<close> is one GET of the repository.
  The result of the mutation is indexed here, by the mutation's name, after the test for
  \<^verbatim>\<open>"errors"\<close>.
\<close>

definition Repo_branch_protection_rule_create ::
  "(http_request \<Rightarrow> 'e + json) \<Rightarrow> repo \<Rightarrow> (string \<times> json) list
     \<Rightarrow> http_request list \<Rightarrow> ('e exn + json) \<times> http_request list" where
  "Repo_branch_protection_rule_create tr self data log =
     (case prepare_branch_protection_rule_input [] data of
        Inl e \<Rightarrow> (Inl e, log)
      | Inr inputs \<Rightarrow>
          (case Repo_get tr self [] log of
             (Inl e, log1) \<Rightarrow> (Inl e, log1)
           | (Inr info, log1) \<Rightarrow>
               (case py_getitem info ''node_id'' of
                  Inl e \<Rightarrow> (Inl e, log1)
                | Inr node_id \<Rightarrow>
                    (case graphql_mutation tr (rp_github self)
                            ''createBranchProtectionRule''
                            ''CreateBranchProtectionRuleInput''
                            (JDict (AList.update ''repositoryId'' node_id inputs))
                            ''branchProtectionRule {id}'' None log1 of
                       (Inl e, log2) \<Rightarrow> (Inl e, log2)
                     | (Inr out, log2) \<Rightarrow>
                         (case py_contains ''errors'' out of
                            Inl e \<Rightarrow> (Inl e, log2)
                          | Inr True \<Rightarrow> (Inr out, log2)
                          | Inr False \<Rightarrow>
                              (case py_getitem out ''createBranchProtectionRule'' of
                                 Inl e \<Rightarrow> (Inl e, log2)
                               | Inr rule \<Rightarrow>
                                   (case py_getitem rule ''branchProtectionRule'' of
                                      Inl e \<Rightarrow> (Inl e, log2)
                                    | Inr r \<Rightarrow> (py_getitem r ''id'', log2))))))))"

section \<open>The DOI client\<close>

text \<open>
  \<^verbatim>\<open>DOI.__init__\<close> matches
  \<^verbatim>\<open>(?:https?://)?(?:dx\.)?(?:doi\.org/)?(10\.\d+/\S+)\<close> at the start of its argument.
  An optional group is tried first with its text and, when the rest of the pattern then
  fails, without it (\<open>opt\<close>). In the group, \<^verbatim>\<open>\d+\<close> must be followed by \<^verbatim>\<open>/\<close>, so it
  takes the whole run of digits, and the final \<^verbatim>\<open>\S+\<close> takes the whole run of
  characters that are not whitespace. Among the characters 0..255, \<^verbatim>\<open>\d\<close> is an ASCII
  digit and \<^verbatim>\<open>\s\<close> is one of the twelve characters of \<open>whitespace\<close>.
\<close>

definition decimal_digits :: string where
  "decimal_digits = ''0123456789''"

definition whitespace :: string where
  "whitespace = [CHR 0x09, CHR 0x0A, CHR 0x0B, CHR 0x0C, CHR 0x0D,
                 CHR 0x1C, CHR 0x1D, CHR 0x1E, CHR 0x1F, CHR 0x20, CHR 0x85, CHR 0xA0]"

definition opt :: "string \<Rightarrow> (string \<Rightarrow> 'a option) \<Rightarrow> string \<Rightarrow> 'a option" where
  "opt p k s =
     (case (if prefix p s then k (drop (length p) s) else None) of
        Some r \<Rightarrow> Some r
      | None \<Rightarrow> k s)"

text \<open>\<^verbatim>\<open>(10\.\d+/\S+)\<close> at the start of \<open>s\<close>: the text of the group, if it matches.\<close>

definition match_identifier :: "string \<Rightarrow> string option" where
  "match_identifier s =
     (if prefix ''10.'' s
      then (let ds = takeWhile (\<lambda>c. c \<in> set decimal_digits) (drop 3 s);
                r = dropWhile (\<lambda>c. c \<in> set decimal_digits) (drop 3 s)
            in if ds \<noteq> [] \<and> prefix ''/'' r
                  \<and> takeWhile (\<lambda>c. c \<notin> set whitespace) (drop 1 r) \<noteq> []
               then Some (''10.'' @ ds @ ''/'' @ takeWhile (\<lambda>c. c \<notin> set whitespace) (drop 1 r))
               else None)
      else None)"

text \<open>\<^verbatim>\<open>(?:https?://)?\<close>: \<^verbatim>\<open>http\<close>, then \<^verbatim>\<open>s\<close> if possible, then \<^verbatim>\<open>://\<close>.\<close>

definition opt_scheme :: "(string \<Rightarrow> 'a option) \<Rightarrow> string \<Rightarrow> 'a option" where
  "opt_scheme k s =
     (case (if prefix ''https://'' s then k (drop 8 s)
            else if prefix ''http://'' s then k (drop 7 s)
            else None) of
        Some r \<Rightarrow> Some r
      | None \<Rightarrow> k s)"

definition doi_match :: "string \<Rightarrow> string option" where
  "doi_match = opt_scheme (opt ''dx.'' (opt ''doi.org/'' match_identifier))"

record doi =
  doi_doi :: string
  doi_url :: string

text \<open>
  The constructor issues no request; like the other operations it is given the log of
  requests, which it returns as it was.
\<close>

definition DOI_init ::
  "string \<Rightarrow> http_request list \<Rightarrow> ('e exn + doi) \<times> http_request list" where
  "DOI_init s log =
     (case doi_match s of
        None \<Rightarrow> (Inl ValueError, log)
      | Some d \<Rightarrow> (Inr \<lparr> doi_doi = d, doi_url = ''https://doi.org/'' @ d \<rparr>, log))"

section \<open>Vocabulary of the properties\<close>

text \<open>
  The request that \<open>Repo_get\<close> issues for a query, on a client built by \<open>Repo_init\<close>.
\<close>

definition get_request :: "repo \<Rightarrow> string \<Rightarrow> http_request" where
  "get_request self query =
     \<lparr> rq_verb = ''GET'',
       rq_url = Div (Url ''https://api.github.com'')
                  (''repos/'' @ rp_username self @ ''/'' @ rp_name self @ ''/'' @ query),
       rq_headers = gh_headers (rp_github self),
       rq_data = None, rq_json = None, rq_response_type = Some ''json'' \<rparr>"

text \<open>
  The five paginated listings as values, so that a property can speak of all of them:
  \<open>op_query\<close> is the query string of a page, \<open>op_cap\<close> the cap of
  \<^verbatim>\<open>issue_comments\<close>, \<open>run_op\<close> the operation itself and \<open>page_request\<close> the
  request it issues for a page.
\<close>

datatype list_op =
    Branches
  | Labels
  | Issue_labels int
  | Issue_comments int int
  | Pull_list string "string option" "string option" string string

fun op_query :: "list_op \<Rightarrow> nat \<Rightarrow> string" where
  "op_query Branches = branches_query"
| "op_query Labels = labels_query"
| "op_query (Issue_labels number) = issue_labels_query number"
| "op_query (Issue_comments number max_count) = issue_comments_query number"
| "op_query (Pull_list state head base srt direction) =
     pull_list_query state head base srt direction"

fun op_cap :: "list_op \<Rightarrow> int option" where
  "op_cap (Issue_comments number max_count) = Some max_count"
| "op_cap _ = None"

fun run_op ::
  "(http_request \<Rightarrow> 'e + json) \<Rightarrow> repo \<Rightarrow> list_op \<Rightarrow> http_request list
     \<Rightarrow> (('e exn + json list) \<times> http_request list) option" where
  "run_op tr self Branches log = Repo_branches tr self log"
| "run_op tr self Labels log = Repo_labels tr self log"
| "run_op tr self (Issue_labels number) log = Repo_issue_labels tr self number log"
| "run_op tr self (Issue_comments number max_count) log =
     Repo_issue_comments tr self number max_count log"
| "run_op tr self (Pull_list state head base srt direction) log =
     Repo_pull_list tr self state head base srt direction log"

definition page_request :: "repo \<Rightarrow> list_op \<Rightarrow> nat \<Rightarrow> http_request" where
  "page_request self op p = get_request self (op_query op p)"

text \<open>
  For pages \<open>pages 1\<close>, \<open>pages 2\<close>, ... of items: the test that ends the loop after
  page \<open>p\<close>, when the pages before it did not end it.
\<close>

definition stop_at :: "list_op \<Rightarrow> (nat \<Rightarrow> json list) \<Rightarrow> nat \<Rightarrow> bool" where
  "stop_at op pages p =
     (length (pages p) < 100 \<or>
      (case op_cap op of None \<Rightarrow> False
       | Some m \<Rightarrow> m \<le> int (length (concat (map pages [1..<Suc p])))))"

text \<open>A server with 100 branches on every page but the third, which has 42.\<close>

definition short_third_page :: "http_request \<Rightarrow> nat + json" where
  "short_third_page r =
     (if rq_url r = Div (Url ''https://api.github.com'')
                      ''repos/octocat/hello/branches?per_page=100&page=3''
      then Inr (JList (replicate 42 JNull))
      else Inr (JList (replicate 100 JNull)))"

text \<open>
  Servers for the examples: one with 100 items on every page; one with 100 items on page 1
  and none after it; one with 100 items on page 1 and two on page 2; one that fails with
  status 502 on page 2.
\<close>

definition full_pages :: "http_request \<Rightarrow> nat + json" where
  "full_pages r = Inr (JList (replicate 100 JNull))"

definition one_full_page :: "http_request \<Rightarrow> nat + json" where
  "one_full_page r =
     (case rq_url r of
        Div u q \<Rightarrow> if suffix ''&page=1'' q then Inr (JList (replicate 100 JNull))
                   else Inr (JList [])
      | Url u \<Rightarrow> Inr (JList []))"

definition two_pages :: "http_request \<Rightarrow> nat + json" where
  "two_pages r =
     (case rq_url r of
        Div u q \<Rightarrow> if suffix ''&page=1'' q then Inr (JList (replicate 100 (JStr ''a'')))
                   else if suffix ''&page=2'' q then Inr (JList [JStr ''b'', JStr ''c''])
                   else Inr (JList [])
      | Url u \<Rightarrow> Inr (JList []))"

definition fails_on_second_page :: "http_request \<Rightarrow> nat + json" where
  "fails_on_second_page r =
     (case rq_url r of
        Div u q \<Rightarrow> if suffix ''&page=2'' q then Inl 502
                   else Inr (JList (replicate 100 (JStr ''bug'')))
      | Url u \<Rightarrow> Inl 404)"

text \<open>
  Two GraphQL servers: one that refuses every mutation with an error envelope, and one
  that answers the repository lookup with a node id and a mutation with the rule created.
\<close>

definition refusing :: "http_request \<Rightarrow> nat + json" where
  "refusing r = Inr (JDict [(''errors'', JList [JDict [(''message'', JStr ''denied'')]])])"

definition rule_created :: "http_request \<Rightarrow> nat + json" where
  "rule_created r =
     (if rq_verb r = ''GET'' then Inr (JDict [(''node_id'', JStr ''R_1'')])
      else Inr (JDict [(''data'', JDict [(''createBranchProtectionRule'',
              JDict [(''branchProtectionRule'', JDict [(''id'', JStr ''BPR_1'')])])])]))"

text \<open>A server that answers every request with \<^verbatim>\<open>null\<close>.\<close>

definition no_content :: "http_request \<Rightarrow> nat + json" where
  "no_content r = Inr JNull"

text \<open>The value of a field in the JSON payload of a request; \<open>None\<close> when it is absent.\<close>

definition payload_field :: "json option \<Rightarrow> string \<Rightarrow> json option" where
  "payload_field js k = (case js of Some (JDict d) \<Rightarrow> map_of d k | _ \<Rightarrow> None)"

text \<open>
  A topic that \<^verbatim>\<open>Repo.repo_topics_replace\<close> must refuse: not a string, longer than 50
  characters, or not matching the topic pattern.
\<close>

definition bad_topic :: "json \<Rightarrow> bool" where
  "bad_topic t =
     (case t of JStr s \<Rightarrow> 50 < length s \<or> \<not> topic_pattern_match s | _ \<Rightarrow> True)"

text \<open>
  A string that starts with a DOI: an optional \<^verbatim>\<open>http://\<close> or \<^verbatim>\<open>https://\<close>, an optional
  \<^verbatim>\<open>dx.\<close>, an optional \<^verbatim>\<open>doi.org/\<close>, then \<^verbatim>\<open>10.\<close>, one or more digits, \<^verbatim>\<open>/\<close> and one or
  more characters that are not whitespace; anything may follow.
\<close>

definition starts_with_doi :: "string \<Rightarrow> bool" where
  "starts_with_doi s =
     (\<exists>scheme dx host ds rest tail.
        s = scheme @ dx @ host @ ''10.'' @ ds @ ''/'' @ rest @ tail
        \<and> scheme \<in> {'''', ''http://'', ''https://''}
        \<and> dx \<in> {'''', ''dx.''}
        \<and> host \<in> {'''', ''doi.org/''}
        \<and> ds \<noteq> [] \<and> set ds \<subseteq> set decimal_digits
        \<and> rest \<noteq> [] \<and> set rest \<inter> set whitespace = {})"

section \<open>Properties\<close>

subsection \<open>The pagination loop\<close>

lemma Repo_get_init:
  "Repo_get tr (Repo_init u n t) q log =
     request tr (get_request (Repo_init u n t) q) log"
  by (simp add: Repo_get_def Repo_rest_query_def rest_query_def get_request_def
      Repo_init_def GitHub_init_def merged_headers_def)

lemma page_loop_more:
  assumes "self = Repo_init u n t"
    and "tr (get_request self (query page)) = Inr (JList xs)"
    and "100 \<le> length xs"
    and "\<forall>m. max_count = Some m \<longrightarrow> int (length (items @ xs)) < m"
  shows "page_loop tr self query max_count items page log =
         page_loop tr self query max_count (items @ xs) (Suc page)
           (log @ [get_request self (query page)])"
  using assms
  by (subst page_loop.simps) (auto simp add: Repo_get_init request_def split: option.splits)

lemma page_loop_stop:
  assumes "self = Repo_init u n t"
    and "tr (get_request self (query page)) = Inr (JList xs)"
    and "length xs < 100 \<or> (\<exists>m. max_count = Some m \<and> m \<le> int (length (items @ xs)))"
  shows "page_loop tr self query max_count items page log =
         Some (Inr (items @ xs), log @ [get_request self (query page)])"
  using assms
  by (subst page_loop.simps) (auto simp add: Repo_get_init request_def split: option.splits)

lemma page_loop_raise:
  assumes "self = Repo_init u n t"
    and "tr (get_request self (query page)) = Inl e"
  shows "page_loop tr self query max_count items page log =
         Some (Inl (Transport e), log @ [get_request self (query page)])"
  using assms
  by (subst page_loop.simps) (simp add: Repo_get_init request_def)

lemma page_loop_run:
  assumes self: "self = Repo_init u n t"
    and le: "page \<le> k"
    and pages: "\<forall>p. page \<le> p \<and> p < k \<longrightarrow>
        tr (get_request self (query p)) = Inr (JList (pages p)) \<and> 100 \<le> length (pages p) \<and>
        (\<forall>m. max_count = Some m \<longrightarrow>
           int (length (items @ concat (map pages [page..<Suc p]))) < m)"
  shows "page_loop tr self query max_count items page log =
         page_loop tr self query max_count (items @ concat (map pages [page..<k])) k
           (log @ map (\<lambda>p. get_request self (query p)) [page..<k])"
  using le
proof (induction k rule: dec_induct)
  case base
  show ?case by simp
next
  case (step j)
  have "page_loop tr self query max_count (items @ concat (map pages [page..<j])) j
           (log @ map (\<lambda>p. get_request self (query p)) [page..<j]) =
        page_loop tr self query max_count ((items @ concat (map pages [page..<j])) @ pages j) (Suc j)
           ((log @ map (\<lambda>p. get_request self (query p)) [page..<j]) @ [get_request self (query j)])"
  proof (rule page_loop_more [OF self])
    show "tr (get_request self (query j)) = Inr (JList (pages j))"
      using pages step.hyps by simp
    show "100 \<le> length (pages j)"
      using pages step.hyps by simp
    show "\<forall>m. max_count = Some m \<longrightarrow>
        int (length ((items @ concat (map pages [page..<j])) @ pages j)) < m"
      using pages step.hyps by simp
  qed
  then show ?case using step by simp
qed

lemma run_op_loop:
  "run_op tr self op log = page_loop tr self (op_query op) (op_cap op) [] 1 log"
  by (cases op)
    (simp_all add: Repo_branches_def Repo_labels_def Repo_issue_labels_def
      Repo_issue_comments_def Repo_pull_list_def)

lemma run_op_prefix:
  assumes self: "self = Repo_init u n t"
    and k: "1 \<le> k"
    and full: "\<forall>p. 1 \<le> p \<and> p < k \<longrightarrow>
        tr (page_request self op p) = Inr (JList (pages p)) \<and> \<not> stop_at op pages p"
  shows "run_op tr self op log =
         page_loop tr self (op_query op) (op_cap op) (concat (map pages [1..<k])) k
           (log @ map (page_request self op) [1..<k])"
proof -
  have "page_loop tr self (op_query op) (op_cap op) [] 1 log =
        page_loop tr self (op_query op) (op_cap op) ([] @ concat (map pages [1..<k])) k
          (log @ map (\<lambda>p. get_request self (op_query op p)) [1..<k])"
  proof (rule page_loop_run [OF self k])
    show "\<forall>p. 1 \<le> p \<and> p < k \<longrightarrow>
        tr (get_request self (op_query op p)) = Inr (JList (pages p)) \<and>
        100 \<le> length (pages p) \<and>
        (\<forall>m. op_cap op = Some m \<longrightarrow>
           int (length ([] @ concat (map pages [1..<Suc p]))) < m)"
      using full by (auto simp add: page_request_def stop_at_def split: option.splits)
  qed
  then show ?thesis
    by (simp add: run_op_loop page_request_def [abs_def])
qed

lemma run_op_returns:
  assumes self: "self = Repo_init u n t"
    and k: "1 \<le> k"
    and full: "\<forall>p. 1 \<le> p \<and> p < k \<longrightarrow>
        tr (page_request self op p) = Inr (JList (pages p)) \<and> \<not> stop_at op pages p"
    and last: "tr (page_request self op k) = Inr (JList (pages k))"
    and stop: "stop_at op pages k"
  shows "run_op tr self op log =
         Some (Inr (concat (map pages [1..<Suc k])),
               log @ map (page_request self op) [1..<Suc k])"
proof -
  have "page_loop tr self (op_query op) (op_cap op) (concat (map pages [1..<k])) k
           (log @ map (page_request self op) [1..<k]) =
        Some (Inr (concat (map pages [1..<k]) @ pages k),
              (log @ map (page_request self op) [1..<k]) @ [get_request self (op_query op k)])"
  proof (rule page_loop_stop [OF self])
    show "tr (get_request self (op_query op k)) = Inr (JList (pages k))"
      using last by (simp add: page_request_def)
    show "length (pages k) < 100 \<or>
        (\<exists>m. op_cap op = Some m \<and> m \<le> int (length (concat (map pages [1..<k]) @ pages k)))"
      using stop k by (auto simp add: stop_at_def split: option.splits)
  qed
  then show ?thesis
    using k by (simp add: run_op_prefix [OF self k full] page_request_def)
qed

lemma run_op_raises:
  assumes self: "self = Repo_init u n t"
    and k: "1 \<le> k"
    and full: "\<forall>p. 1 \<le> p \<and> p < k \<longrightarrow>
        tr (page_request self op p) = Inr (JList (pages p)) \<and> \<not> stop_at op pages p"
    and last: "tr (page_request self op k) = Inl e"
  shows "run_op tr self op log =
         Some (Inl (Transport e), log @ map (page_request self op) [1..<Suc k])"
proof -
  have "page_loop tr self (op_query op) (op_cap op) (concat (map pages [1..<k])) k
           (log @ map (page_request self op) [1..<k]) =
        Some (Inl (Transport e),
              (log @ map (page_request self op) [1..<k]) @ [get_request self (op_query op k)])"
    by (rule page_loop_raise [OF self]) (use last in \<open>simp add: page_request_def\<close>)
  then show ?thesis
    using k by (simp add: run_op_prefix [OF self k full] page_request_def)
qed

lemma shapeI:
  assumes "q = a @ x @ m @ y"
  shows "sublist x q \<and> suffix y q"
proof
  show "sublist x q"
    unfolding assms by (rule sublist_appendI)
  have "q = (a @ x @ m) @ y"
    by (simp add: assms)
  then show "suffix y q"
    by (rule suffixI)
qed

lemma op_query_shape:
  "sublist ''per_page=100'' (op_query op p) \<and> suffix (''&page='' @ str_nat p) (op_query op p)"
proof (cases op)
  case Branches
  show ?thesis
    by (rule shapeI [where a = "''branches?''" and m = "[]"])
      (simp add: Branches branches_query_def)
next
  case Labels
  show ?thesis
    by (rule shapeI [where a = "''labels?''" and m = "[]"])
      (simp add: Labels labels_query_def)
next
  case (Issue_labels number)
  show ?thesis
    by (rule shapeI [where a = "''issues/'' @ str_int number @ ''/labels?''" and m = "[]"])
      (simp add: Issue_labels issue_labels_query_def)
next
  case (Issue_comments number max_count)
  show ?thesis
    by (rule shapeI [where a = "''issues/'' @ str_int number @ ''/comments?''" and m = "[]"])
      (simp add: Issue_comments issue_comments_query_def)
next
  case (Pull_list state head base srt direction)
  show ?thesis
    by (rule shapeI
        [where a = "''pulls?state='' @ state @ ''&sort='' @ srt @ ''&direction='' @ direction
                      @ ''&''"
           and m = "(case head of None \<Rightarrow> [] | Some h \<Rightarrow> if h \<noteq> [] then ''&head='' @ h else [])
             @ (case base of None \<Rightarrow> [] | Some b \<Rightarrow> if b \<noteq> [] then ''&base='' @ b else [])"])
      (simp add: Pull_list pull_list_query_def)
qed

text \<open>
  C1. \<^verbatim>\<open>Repo.branches\<close>, \<^verbatim>\<open>Repo.labels\<close>, \<^verbatim>\<open>Repo.issue_labels\<close> and \<^verbatim>\<open>Repo.pull_list\<close>
  (the operations without a cap) request page 1, 2, ... with \<^verbatim>\<open>per_page=100\<close> in every
  query, and stop exactly at the first page \<open>k\<close> that has fewer than 100 items: they
  return the items of pages 1 to \<open>k\<close> after exactly these \<open>k\<close> requests. With 100, 100
  and 42 items on pages 1 to 3 the result has 242 items and 3 requests were issued.
\<close>

theorem paginated_fetch_until_short_page:
  assumes "op_cap op = None"
    and "1 \<le> k"
    and "\<forall>p. 1 \<le> p \<and> p \<le> k \<longrightarrow>
           tr (page_request (Repo_init username name token) op p) = Inr (JList (pages p))"
    and "\<forall>p. 1 \<le> p \<and> p < k \<longrightarrow> \<not> length (pages p) < 100"
    and "length (pages k) < 100"
  shows "run_op tr (Repo_init username name token) op log =
           Some (Inr (concat (map pages [1..<Suc k])),
                 log @ map (page_request (Repo_init username name token) op) [1..<Suc k])
         \<and> (\<forall>p. sublist ''per_page=100'' (op_query op p)
                \<and> suffix (''&page='' @ str_nat p) (op_query op p))
         \<and> (k = 3 \<and> length (pages 1) = 100 \<and> length (pages 2) = 100 \<and> length (pages 3) = 42
              \<longrightarrow> (\<exists>xs rs. run_op tr (Repo_init username name token) op log
                               = Some (Inr xs, log @ rs)
                           \<and> length xs = 242 \<and> length rs = 3))"
proof -
  have run: "run_op tr (Repo_init username name token) op log =
           Some (Inr (concat (map pages [1..<Suc k])),
                 log @ map (page_request (Repo_init username name token) op) [1..<Suc k])"
  proof (rule run_op_returns [OF refl \<open>1 \<le> k\<close>])
    show "\<forall>p. 1 \<le> p \<and> p < k \<longrightarrow>
        tr (page_request (Repo_init username name token) op p) = Inr (JList (pages p))
        \<and> \<not> stop_at op pages p"
      using assms by (simp add: stop_at_def)
    show "tr (page_request (Repo_init username name token) op k) = Inr (JList (pages k))"
      using assms by simp
    show "stop_at op pages k"
      using assms by (simp add: stop_at_def)
  qed
  have three: "[Suc 0..<4] = [Suc 0, 2, 3]"
    by (simp add: upt_rec)
  have "\<exists>xs rs. run_op tr (Repo_init username name token) op log = Some (Inr xs, log @ rs)
           \<and> length xs = 242 \<and> length rs = 3"
    if "k = 3" "length (pages 1) = 100" "length (pages 2) = 100" "length (pages 3) = 42"
    using run that by (simp add: three)
  then show ?thesis
    using run op_query_shape by blast
qed

theorem paginated_fetch_until_short_page_witness:
  "run_op short_third_page (Repo_init ''octocat'' ''hello'' None) Branches [] =
     Some (Inr (replicate 242 JNull),
           [get_request (Repo_init ''octocat'' ''hello'' None) ''branches?per_page=100&page=1'',
            get_request (Repo_init ''octocat'' ''hello'' None) ''branches?per_page=100&page=2'',
            get_request (Repo_init ''octocat'' ''hello'' None) ''branches?per_page=100&page=3''])"
proof -
  define pages where "pages = (\<lambda>p::nat. if p = 3 then replicate 42 JNull else replicate 100 JNull)"
  have q: "branches_query (Suc 0) = ''branches?per_page=100&page=1''"
    "branches_query 2 = ''branches?per_page=100&page=2''"
    "branches_query 3 = ''branches?per_page=100&page=3''"
    by (simp_all add: branches_query_def str_nat.simps digit_char_def)
  have r: "rq_url (page_request (Repo_init ''octocat'' ''hello'' None) Branches p) =
      Div (Url ''https://api.github.com'') (''repos/octocat/hello/'' @ branches_query p)" for p
    by (simp add: page_request_def get_request_def Repo_init_def)
  have cases3: "p = 1 \<or> p = 2 \<or> p = 3" if "1 \<le> p" "p \<le> 3" for p :: nat
    using that by arith
  have h1: "\<forall>p. 1 \<le> p \<and> p \<le> 3 \<longrightarrow>
      short_third_page (page_request (Repo_init ''octocat'' ''hello'' None) Branches p)
        = Inr (JList (pages p))"
  proof (intro allI impI)
    fix p :: nat
    assume "1 \<le> p \<and> p \<le> 3"
    then have "p = 1 \<or> p = 2 \<or> p = 3"
      using cases3 by simp
    then show "short_third_page (page_request (Repo_init ''octocat'' ''hello'' None) Branches p)
        = Inr (JList (pages p))"
      by (elim disjE) (simp_all add: short_third_page_def r q pages_def)
  qed
  have h2: "\<forall>p. 1 \<le> p \<and> p < 3 \<longrightarrow> \<not> length (pages p) < 100"
    by (simp add: pages_def)
  have h3: "length (pages 3) < 100"
    by (simp add: pages_def)
  have three: "[Suc 0..<4] = [Suc 0, 2, 3]"
    by (simp add: upt_rec)
  have "replicate 100 JNull @ replicate 100 JNull @ replicate 42 JNull = replicate 242 JNull"
    by (simp add: replicate_add [symmetric])
  then show ?thesis
    using paginated_fetch_until_short_page
      [of Branches 3 short_third_page "''octocat''" "''hello''" None pages "[]", OF _ _ h1 h2 h3]
    by (simp add: three pages_def page_request_def q)
qed

subsection \<open>Listings that do not return\<close>

text \<open>
  The other half of "stops exactly when": while every page has at least 100 items, a
  listing without a cap keeps requesting, so it has no result.
\<close>

lemma page_loop_full_pages:
  assumes "page_loop tr self query max_count items page log = Some y"
  shows "self = Repo_init u n t \<longrightarrow> max_count = None \<longrightarrow>
         (\<exists>p \<ge> page. \<forall>xs. tr (get_request self (query p)) = Inr (JList xs) \<longrightarrow> length xs < 100)"
proof (rule page_loop.raw_induct
    [where P = "\<lambda>tr self query max_count items page log y.
        self = Repo_init u n t \<longrightarrow> max_count = None \<longrightarrow>
        (\<exists>p \<ge> page. \<forall>xs. tr (get_request self (query p)) = Inr (JList xs)
           \<longrightarrow> length xs < 100)", OF _ assms], goal_cases)
  case (1 loop tr self query max_count items page log y)
  show ?case
  proof (intro impI)
    assume self: "self = Repo_init u n t" and cap: "max_count = None"
    show "\<exists>p \<ge> page. \<forall>xs. tr (get_request self (query p)) = Inr (JList xs)
        \<longrightarrow> length xs < 100"
    proof (rule ccontr)
      assume "\<not> ?thesis"
      then have full: "\<forall>p \<ge> page. \<exists>xs. tr (get_request self (query p)) = Inr (JList xs)
          \<and> 100 \<le> length xs"
        by (simp add: not_less)
      then obtain xs where xs: "tr (get_request self (query page)) = Inr (JList xs)"
          "100 \<le> length xs"
        by blast
      have "loop tr self query max_count (items @ xs) (page + 1)
          (log @ [get_request self (query page)]) = Some y"
        using 1(2) xs self cap by (simp add: Repo_get_init request_def)
      from 1(1) [OF this] self cap
      obtain p where "page + 1 \<le> p"
        "\<forall>xs. tr (get_request self (query p)) = Inr (JList xs) \<longrightarrow> length xs < 100"
        by blast
      then show False
        using full by (metis add_leD1 not_less)
    qed
  qed
qed

lemma uncapped_listing_runs_on_full_pages:
  assumes "op_cap op = None"
    and "\<forall>p \<ge> 1. \<exists>xs. tr (page_request (Repo_init username name token) op p) = Inr (JList xs)
           \<and> 100 \<le> length xs"
  shows "run_op tr (Repo_init username name token) op log = None"
proof (rule ccontr)
  assume "run_op tr (Repo_init username name token) op log \<noteq> None"
  then obtain y where "page_loop tr (Repo_init username name token) (op_query op) (op_cap op)
      [] 1 log = Some y"
    by (auto simp add: run_op_loop)
  from page_loop_full_pages [OF this, of username name token] assms(1)
  obtain p where "1 \<le> p"
    "\<forall>xs. tr (get_request (Repo_init username name token) (op_query op p)) = Inr (JList xs)
       \<longrightarrow> length xs < 100"
    by blast
  then show False
    using assms(2) by (metis not_less page_request_def)
qed

subsection \<open>Results of the paginated listings\<close>

lemma length_concat_pages:
  assumes "\<forall>p. a \<le> p \<and> p < b \<longrightarrow> length (pages p) = c"
  shows "length (concat (map pages [a..<b])) = c * (b - a)"
  using assms
proof (induction b)
  case 0
  show ?case by simp
next
  case (Suc b)
  show ?case
  proof (cases "a \<le> b")
    case True
    then show ?thesis
      using Suc by (simp add: Suc_diff_le)
  next
    case False
    then show ?thesis by simp
  qed
qed

lemma one_or_two: "p = 1 \<or> p = 2" if "1 \<le> p" "p \<le> 2" for p :: nat
  using that by arith

text \<open>
  C6. For each of the five paginated listings and any pages of items the server answers
  with, where \<open>k\<close> is the first page after which the loop's test holds: the returned list
  is \<open>pages 1 @ pages 2 @ ... @ pages k\<close>, each page's items in the order received.
\<close>

theorem paginated_result_is_concatenation:
  assumes "1 \<le> k"
    and "\<forall>p. 1 \<le> p \<and> p \<le> k \<longrightarrow>
           tr (page_request (Repo_init username name token) op p) = Inr (JList (pages p))"
    and "\<forall>p. 1 \<le> p \<and> p < k \<longrightarrow> \<not> stop_at op pages p"
    and "stop_at op pages k"
  shows "run_op tr (Repo_init username name token) op log =
           Some (Inr (concat (map pages [1..<Suc k])),
                 log @ map (page_request (Repo_init username name token) op) [1..<Suc k])"
  by (rule run_op_returns [OF refl]) (use assms in simp_all)

theorem paginated_result_is_concatenation_witness:
  "run_op two_pages (Repo_init ''octocat'' ''hello'' None)
      (Pull_list ''open'' None (Some ''main'') ''created'' ''desc'') [] =
     Some (Inr (replicate 100 (JStr ''a'') @ [JStr ''b'', JStr ''c'']),
           [get_request (Repo_init ''octocat'' ''hello'' None)
              ''pulls?state=open&sort=created&direction=desc&per_page=100&base=main&page=1'',
            get_request (Repo_init ''octocat'' ''hello'' None)
              ''pulls?state=open&sort=created&direction=desc&per_page=100&base=main&page=2''])"
proof -
  define pages where
    "pages = (\<lambda>p::nat. if p = 1 then replicate 100 (JStr ''a'') else [JStr ''b'', JStr ''c''])"
  let ?op = "Pull_list ''open'' None (Some ''main'') ''created'' ''desc''"
  have q: "op_query ?op (Suc 0) =
        ''pulls?state=open&sort=created&direction=desc&per_page=100&base=main&page=1''"
      "op_query ?op 2 =
        ''pulls?state=open&sort=created&direction=desc&per_page=100&base=main&page=2''"
    by (simp_all add: pull_list_query_def str_nat.simps digit_char_def)
  have h1: "\<forall>p. 1 \<le> p \<and> p \<le> 2 \<longrightarrow>
      two_pages (page_request (Repo_init ''octocat'' ''hello'' None) ?op p) = Inr (JList (pages p))"
  proof (intro allI impI)
    fix p :: nat
    assume "1 \<le> p \<and> p \<le> 2"
    then have "p = 1 \<or> p = 2"
      using one_or_two by simp
    then show "two_pages (page_request (Repo_init ''octocat'' ''hello'' None) ?op p)
        = Inr (JList (pages p))"
      by (elim disjE)
        (simp_all only: page_request_def q One_nat_def,
         simp_all add: two_pages_def get_request_def Repo_init_def pages_def suffix_to_prefix)
  qed
  have h2: "\<forall>p. 1 \<le> p \<and> p < 2 \<longrightarrow> \<not> stop_at ?op pages p"
    by (simp add: stop_at_def pages_def)
  have h3: "stop_at ?op pages 2"
    by (simp add: stop_at_def pages_def)
  have two: "[Suc 0..<3] = [Suc 0, 2]"
    by (simp add: upt_rec)
  show ?thesis
    using paginated_result_is_concatenation
      [of 2 two_pages "''octocat''" "''hello''" None ?op pages "[]", OF _ h1 h2 h3]
    by (simp add: two pages_def page_request_def q del: op_query.simps)
qed

text \<open>
  C7. If pages 1 to \<open>k - 1\<close> are fetched and do not end the loop and the fetch of page \<open>k\<close>
  raises \<open>e\<close>, the listing raises \<open>e\<close> itself, right after that request; the items of the
  earlier pages are not returned.
\<close>

theorem paginated_error_propagates:
  assumes "1 \<le> k"
    and "\<forall>p. 1 \<le> p \<and> p < k \<longrightarrow>
           tr (page_request (Repo_init username name token) op p) = Inr (JList (pages p))
           \<and> \<not> stop_at op pages p"
    and "tr (page_request (Repo_init username name token) op k) = Inl e"
  shows "run_op tr (Repo_init username name token) op log =
           Some (Inl (Transport e),
                 log @ map (page_request (Repo_init username name token) op) [1..<Suc k])"
  by (rule run_op_raises [OF refl, where pages = pages]) (use assms in simp_all)

theorem paginated_error_propagates_witness:
  "run_op fails_on_second_page (Repo_init ''octocat'' ''hello'' None) Labels [] =
     Some (Inl (Transport 502),
           [get_request (Repo_init ''octocat'' ''hello'' None) ''labels?per_page=100&page=1'',
            get_request (Repo_init ''octocat'' ''hello'' None) ''labels?per_page=100&page=2''])"
proof -
  define pages where "pages = (\<lambda>p::nat. replicate 100 (JStr ''bug''))"
  have q: "op_query Labels (Suc 0) = ''labels?per_page=100&page=1''"
      "op_query Labels 2 = ''labels?per_page=100&page=2''"
    by (simp_all add: labels_query_def str_nat.simps digit_char_def)
  have h1: "\<forall>p. 1 \<le> p \<and> p < 2 \<longrightarrow>
      fails_on_second_page (page_request (Repo_init ''octocat'' ''hello'' None) Labels p)
        = Inr (JList (pages p)) \<and> \<not> stop_at Labels pages p"
  proof (intro allI impI)
    fix p :: nat
    assume "1 \<le> p \<and> p < 2"
    then have "p = Suc 0"
      by arith
    then show "fails_on_second_page (page_request (Repo_init ''octocat'' ''hello'' None) Labels p)
        = Inr (JList (pages p)) \<and> \<not> stop_at Labels pages p"
      by (simp only: page_request_def q)
        (simp add: fails_on_second_page_def get_request_def Repo_init_def pages_def
          stop_at_def suffix_to_prefix)
  qed
  have h2: "fails_on_second_page (page_request (Repo_init ''octocat'' ''hello'' None) Labels 2)
      = Inl 502"
    by (simp only: page_request_def q)
      (simp add: fails_on_second_page_def get_request_def Repo_init_def suffix_to_prefix)
  have two: "[Suc 0..<3] = [Suc 0, 2]"
    by (simp add: upt_rec)
  show ?thesis
    using paginated_error_propagates
      [of 2 fails_on_second_page "''octocat''" "''hello''" None Labels pages 502 "[]", OF _ h1 h2]
    by (simp add: two page_request_def q del: op_query.simps)
qed

text \<open>
  C4. When every page has exactly 100 items, \<^verbatim>\<open>Repo.issue_comments\<close> returns after the
  first page \<open>k\<close> with \<open>max_count \<le> 100 * k\<close>, with the \<open>100 * k\<close> items of pages 1 to \<open>k\<close>;
  for \<open>max_count = 150\<close> that is page 2.
\<close>

theorem issue_comments_stops_at_cap:
  assumes "\<forall>p. 1 \<le> p \<longrightarrow>
           tr (page_request (Repo_init username name token) (Issue_comments number max_count) p)
             = Inr (JList (pages p)) \<and> length (pages p) = 100"
  shows "\<exists>k. 1 \<le> k
           \<and> (\<forall>j. 1 \<le> j \<and> j < k \<longrightarrow> 100 * int j < max_count)
           \<and> max_count \<le> 100 * int k
           \<and> Repo_issue_comments tr (Repo_init username name token) number max_count log =
               Some (Inr (concat (map pages [1..<Suc k])),
                     log @ map (page_request (Repo_init username name token)
                                  (Issue_comments number max_count)) [1..<Suc k])
           \<and> length (concat (map pages [1..<Suc k])) = 100 * k
           \<and> (max_count = 150 \<longrightarrow> k = 2)"
proof -
  define k where "k = (if max_count \<le> 100 then 1 else nat ((max_count + 99) div 100))"
  have k1: "1 \<le> k"
    by (simp add: k_def) arith
  have below: "\<forall>j. 1 \<le> j \<and> j < k \<longrightarrow> 100 * int j < max_count"
    by (auto simp add: k_def split: if_splits)
  have reach: "max_count \<le> 100 * int k"
    by (auto simp add: k_def)
  have len: "length (concat (map pages [Suc 0..<Suc p])) = 100 * p" for p
    using length_concat_pages [of "Suc 0" "Suc p" pages 100] assms by (simp del: upt_Suc)
  have run: "run_op tr (Repo_init username name token) (Issue_comments number max_count) log =
      Some (Inr (concat (map pages [1..<Suc k])),
            log @ map (page_request (Repo_init username name token)
                         (Issue_comments number max_count)) [1..<Suc k])"
  proof (rule run_op_returns [OF refl k1])
    show "\<forall>p. 1 \<le> p \<and> p < k \<longrightarrow>
        tr (page_request (Repo_init username name token) (Issue_comments number max_count) p)
          = Inr (JList (pages p))
        \<and> \<not> stop_at (Issue_comments number max_count) pages p"
      using assms below by (auto simp add: stop_at_def len not_le simp del: upt_Suc)
    show "tr (page_request (Repo_init username name token) (Issue_comments number max_count) k)
          = Inr (JList (pages k))"
      using assms k1 by simp
    show "stop_at (Issue_comments number max_count) pages k"
      using reach by (simp add: stop_at_def len del: upt_Suc)
  qed
  have "max_count = 150 \<longrightarrow> k = 2"
    by (simp add: k_def)
  with k1 below reach run len show ?thesis
    by (intro exI [of _ k]) (simp del: upt_Suc)
qed

theorem issue_comments_stops_at_cap_witness:
  "Repo_issue_comments full_pages (Repo_init ''octocat'' ''hello'' None) 7 150 [] =
     Some (Inr (replicate 200 JNull),
           [get_request (Repo_init ''octocat'' ''hello'' None)
              ''issues/7/comments?per_page=100&page=1'',
            get_request (Repo_init ''octocat'' ''hello'' None)
              ''issues/7/comments?per_page=100&page=2''])"
proof -
  define pages where "pages = (\<lambda>p::nat. replicate 100 JNull)"
  have q: "op_query (Issue_comments 7 150) (Suc 0) = ''issues/7/comments?per_page=100&page=1''"
      "op_query (Issue_comments 7 150) 2 = ''issues/7/comments?per_page=100&page=2''"
    by (simp_all add: issue_comments_query_def str_int_def str_nat.simps digit_char_def)
  have h: "\<forall>p. 1 \<le> p \<longrightarrow>
      full_pages (page_request (Repo_init ''octocat'' ''hello'' None) (Issue_comments 7 150) p)
        = Inr (JList (pages p)) \<and> length (pages p) = 100"
    by (simp add: full_pages_def pages_def)
  have two: "[Suc 0..<3] = [Suc 0, 2]"
    by (simp add: upt_rec)
  have "replicate 100 JNull @ replicate 100 JNull = replicate 200 JNull"
    by (simp add: replicate_add [symmetric])
  then show ?thesis
    using issue_comments_stops_at_cap
      [of full_pages "''octocat''" "''hello''" None 7 150 pages "[]", OF h]
    by (auto simp add: two pages_def page_request_def q simp del: op_query.simps upt_Suc)
qed

lemma full_last_page_then_empty:
  assumes "case op_cap op of None \<Rightarrow> True | Some m \<Rightarrow> n = 0 \<or> 100 * int n < m"
    and "\<forall>p. 1 \<le> p \<and> p \<le> n \<longrightarrow>
           tr (page_request (Repo_init username name token) op p) = Inr (JList (pages p))
           \<and> length (pages p) = 100"
    and "tr (page_request (Repo_init username name token) op (Suc n)) = Inr (JList [])"
  shows "run_op tr (Repo_init username name token) op log =
           Some (Inr (concat (map pages [1..<Suc n])),
                 log @ map (page_request (Repo_init username name token) op) [1..<Suc (Suc n)])
         \<and> length (concat (map pages [1..<Suc n])) = 100 * n"
proof -
  define pages' where "pages' = pages (Suc n := [])"
  have same: "map pages' [1..<Suc n] = map pages [1..<Suc n]"
    by (simp add: pages'_def del: upt_Suc)
  have len: "length (concat (map pages' [Suc 0..<Suc p])) = 100 * p" if "p \<le> n" for p
    using length_concat_pages [of "Suc 0" "Suc p" pages' 100] assms(2) that
    by (simp add: pages'_def del: upt_Suc)
  have "run_op tr (Repo_init username name token) op log =
      Some (Inr (concat (map pages' [1..<Suc (Suc n)])),
            log @ map (page_request (Repo_init username name token) op) [1..<Suc (Suc n)])"
  proof (rule run_op_returns [OF refl])
    show "1 \<le> Suc n" by simp
    show "\<forall>p. 1 \<le> p \<and> p < Suc n \<longrightarrow>
        tr (page_request (Repo_init username name token) op p) = Inr (JList (pages' p))
        \<and> \<not> stop_at op pages' p"
    proof (intro allI impI)
      fix p
      assume p: "1 \<le> p \<and> p < Suc n"
      then have "int (length (concat (map pages' [1..<Suc p]))) \<le> 100 * int n"
        using len [of p] by (simp del: upt_Suc)
      then show "tr (page_request (Repo_init username name token) op p) = Inr (JList (pages' p))
        \<and> \<not> stop_at op pages' p"
        using assms(1,2) p
        by (auto simp add: stop_at_def pages'_def simp del: upt_Suc split: option.splits)
    qed
    show "tr (page_request (Repo_init username name token) op (Suc n)) = Inr (JList (pages' (Suc n)))"
      using assms(3) by (simp add: pages'_def)
    show "stop_at op pages' (Suc n)"
      by (simp add: stop_at_def pages'_def)
  qed
  moreover have "concat (map pages' [1..<Suc (Suc n)]) = concat (map pages [1..<Suc n])"
  proof -
    have "concat (map pages' [1..<Suc (Suc n)]) = concat (map pages' [1..<Suc n]) @ pages' (Suc n)"
      by simp
    also have "pages' (Suc n) = []"
      by (simp add: pages'_def)
    finally show ?thesis
      by (simp only: same append_Nil2)
  qed
  moreover have "length (concat (map pages [1..<Suc n])) = 100 * n"
  proof -
    have "length (concat (map pages' [1..<Suc n])) = 100 * n"
      using len [of n] by (simp del: upt_Suc)
    then show ?thesis
      by (simp only: same)
  qed
  ultimately show ?thesis by (simp del: upt_Suc)
qed

lemma capped_listing_stops_on_full_page:
  assumes cap: "op_cap op = Some m"
    and n: "1 \<le> n" "m \<le> 100 * int n"
    and full: "\<forall>p. 1 \<le> p \<and> p \<le> n \<longrightarrow>
           tr (page_request (Repo_init username name token) op p) = Inr (JList (pages p))
           \<and> length (pages p) = 100"
  shows "\<exists>k. 1 \<le> k \<and> k \<le> n \<and> m \<le> 100 * int k
           \<and> (\<forall>j. 1 \<le> j \<and> j < k \<longrightarrow> 100 * int j < m)
           \<and> run_op tr (Repo_init username name token) op log =
               Some (Inr (concat (map pages [1..<Suc k])),
                     log @ map (page_request (Repo_init username name token) op) [1..<Suc k])"
proof -
  define k where "k = (if m \<le> 100 then 1 else nat ((m + 99) div 100))"
  have k1: "1 \<le> k"
    by (simp add: k_def) arith
  have kn: "k \<le> n"
    using n by (simp add: k_def) arith
  have below: "\<forall>j. 1 \<le> j \<and> j < k \<longrightarrow> 100 * int j < m"
    by (auto simp add: k_def split: if_splits)
  have reach: "m \<le> 100 * int k"
    by (auto simp add: k_def)
  have len: "length (concat (map pages [Suc 0..<Suc p])) = 100 * p" if "p \<le> n" for p
    using length_concat_pages [of "Suc 0" "Suc p" pages 100] full that
    by (simp del: upt_Suc)
  have "run_op tr (Repo_init username name token) op log =
      Some (Inr (concat (map pages [1..<Suc k])),
            log @ map (page_request (Repo_init username name token) op) [1..<Suc k])"
  proof (rule run_op_returns [OF refl k1])
    show "\<forall>p. 1 \<le> p \<and> p < k \<longrightarrow>
        tr (page_request (Repo_init username name token) op p) = Inr (JList (pages p))
        \<and> \<not> stop_at op pages p"
    proof (intro allI impI)
      fix p
      assume p: "1 \<le> p \<and> p < k"
      then have "p \<le> n"
        using kn by simp
      then show "tr (page_request (Repo_init username name token) op p) = Inr (JList (pages p))
        \<and> \<not> stop_at op pages p"
        using full below p cap len [of p]
        by (auto simp add: stop_at_def not_le simp del: upt_Suc)
    qed
    show "tr (page_request (Repo_init username name token) op k) = Inr (JList (pages k))"
      using full k1 kn by simp
    show "stop_at op pages k"
      using reach cap len [OF kn] by (simp add: stop_at_def del: upt_Suc)
  qed
  with k1 kn below reach show ?thesis
    by blast
qed

text \<open>
  C5, as amended. When pages 1 to \<open>n\<close> have exactly 100 items and page \<open>n + 1\<close> is empty,
  the four listings without a cap issue \<open>n + 1\<close> requests and return the \<open>100 * n\<close> items
  of pages 1 to \<open>n\<close>; \<^verbatim>\<open>Repo.issue_comments\<close> does so exactly when \<open>n = 0\<close> or
  \<open>100 * n < max_count\<close>. In the remaining case, \<open>1 \<le> n\<close> and \<open>max_count \<le> 100 * n\<close>, it
  returns after the first page \<open>k \<le> n\<close> with \<open>max_count \<le> 100 * k\<close>, with \<open>k\<close> requests and
  the items of pages 1 to \<open>k\<close>, and the extra request is not made.
\<close>

theorem full_last_page_costs_one_empty_request:
  assumes "\<forall>p. 1 \<le> p \<and> p \<le> n \<longrightarrow>
           tr (page_request (Repo_init username name token) op p) = Inr (JList (pages p))
           \<and> length (pages p) = 100"
    and "tr (page_request (Repo_init username name token) op (Suc n)) = Inr (JList [])"
  shows "(run_op tr (Repo_init username name token) op log =
            Some (Inr (concat (map pages [1..<Suc n])),
                  log @ map (page_request (Repo_init username name token) op)
                          [1..<Suc (Suc n)]))
           = (case op_cap op of None \<Rightarrow> True | Some m \<Rightarrow> n = 0 \<or> 100 * int n < m)
         \<and> length (concat (map pages [1..<Suc n])) = 100 * n
         \<and> (\<forall>m. op_cap op = Some m \<and> 1 \<le> n \<and> m \<le> 100 * int n \<longrightarrow>
               (\<exists>k. 1 \<le> k \<and> k \<le> n \<and> m \<le> 100 * int k
                  \<and> (\<forall>j. 1 \<le> j \<and> j < k \<longrightarrow> 100 * int j < m)
                  \<and> run_op tr (Repo_init username name token) op log =
                      Some (Inr (concat (map pages [1..<Suc k])),
                            log @ map (page_request (Repo_init username name token) op)
                                    [1..<Suc k])))"
proof (intro conjI allI impI)
  have len: "length (concat (map pages [Suc 0..<Suc n])) = 100 * n"
    using length_concat_pages [of "Suc 0" "Suc n" pages 100] assms(1)
    by (simp del: upt_Suc)
  then show "length (concat (map pages [1..<Suc n])) = 100 * n"
    by (simp del: upt_Suc)
  show "(run_op tr (Repo_init username name token) op log =
            Some (Inr (concat (map pages [1..<Suc n])),
                  log @ map (page_request (Repo_init username name token) op)
                          [1..<Suc (Suc n)]))
           = (case op_cap op of None \<Rightarrow> True | Some m \<Rightarrow> n = 0 \<or> 100 * int n < m)"
  proof (cases "case op_cap op of None \<Rightarrow> True | Some m \<Rightarrow> n = 0 \<or> 100 * int n < m")
    case True
    from full_last_page_then_empty [OF True assms, of log] True
    show ?thesis
      by (simp only: simp_thms)
  next
    case False
    then obtain m where m: "op_cap op = Some m" "1 \<le> n" "m \<le> 100 * int n"
      by (cases "op_cap op") (auto simp add: not_less)
    from capped_listing_stops_on_full_page [OF m assms(1), of log]
    obtain k where k: "k \<le> n"
      "run_op tr (Repo_init username name token) op log =
         Some (Inr (concat (map pages [1..<Suc k])),
               log @ map (page_request (Repo_init username name token) op) [1..<Suc k])"
      by blast
    have "length (map (page_request (Repo_init username name token) op) [1..<Suc k])
        \<noteq> length (map (page_request (Repo_init username name token) op) [1..<Suc (Suc n)])"
      using k(1) by (simp del: upt_Suc)
    then have "map (page_request (Repo_init username name token) op) [1..<Suc k]
        \<noteq> map (page_request (Repo_init username name token) op) [1..<Suc (Suc n)]"
      by metis
    then have "run_op tr (Repo_init username name token) op log \<noteq>
            Some (Inr (concat (map pages [1..<Suc n])),
                  log @ map (page_request (Repo_init username name token) op)
                          [1..<Suc (Suc n)])"
      by (simp only: k(2)) simp
    with False show ?thesis
      by (simp only: simp_thms)
  qed
next
  fix m
  assume "op_cap op = Some m \<and> 1 \<le> n \<and> m \<le> 100 * int n"
  then have m: "op_cap op = Some m" "1 \<le> n" "m \<le> 100 * int n"
    by simp_all
  show "\<exists>k. 1 \<le> k \<and> k \<le> n \<and> m \<le> 100 * int k
                  \<and> (\<forall>j. 1 \<le> j \<and> j < k \<longrightarrow> 100 * int j < m)
                  \<and> run_op tr (Repo_init username name token) op log =
                      Some (Inr (concat (map pages [1..<Suc k])),
                            log @ map (page_request (Repo_init username name token) op)
                                    [1..<Suc k])"
    by (rule capped_listing_stops_on_full_page [OF m assms(1)])
qed

theorem full_last_page_costs_one_empty_request_witness:
  "run_op one_full_page (Repo_init ''octocat'' ''hello'' None) Branches [] =
     Some (Inr (replicate 100 JNull),
           [get_request (Repo_init ''octocat'' ''hello'' None) ''branches?per_page=100&page=1'',
            get_request (Repo_init ''octocat'' ''hello'' None) ''branches?per_page=100&page=2''])
   \<and> run_op one_full_page (Repo_init ''octocat'' ''hello'' None) (Issue_comments 7 1000) [] =
     Some (Inr (replicate 100 JNull),
           [get_request (Repo_init ''octocat'' ''hello'' None)
              ''issues/7/comments?per_page=100&page=1'',
            get_request (Repo_init ''octocat'' ''hello'' None)
              ''issues/7/comments?per_page=100&page=2''])
   \<and> run_op one_full_page (Repo_init ''octocat'' ''hello'' None) (Issue_comments 7 100) [] \<noteq>
     Some (Inr (replicate 100 JNull),
           [get_request (Repo_init ''octocat'' ''hello'' None)
              ''issues/7/comments?per_page=100&page=1'',
            get_request (Repo_init ''octocat'' ''hello'' None)
              ''issues/7/comments?per_page=100&page=2''])"
proof -
  define pages where "pages = (\<lambda>p::nat. replicate 100 JNull)"
  let ?R = "Repo_init ''octocat'' ''hello'' None"
  have q: "op_query Branches (Suc 0) = ''branches?per_page=100&page=1''"
      "op_query Branches (Suc (Suc 0)) = ''branches?per_page=100&page=2''"
      "op_query (Issue_comments 7 m) (Suc 0) = ''issues/7/comments?per_page=100&page=1''"
      "op_query (Issue_comments 7 m) (Suc (Suc 0)) = ''issues/7/comments?per_page=100&page=2''"
    for m
    by (simp_all add: branches_query_def issue_comments_query_def str_int_def str_nat.simps
        digit_char_def)
  have first: "one_full_page (page_request ?R op (Suc 0)) = Inr (JList (pages (Suc 0)))
      \<and> length (pages (Suc 0)) = 100"
    if "op = Branches \<or> (\<exists>m. op = Issue_comments 7 m)" for op
    using that
    by (elim disjE exE; simp only: page_request_def q)
      (simp_all add: one_full_page_def get_request_def Repo_init_def pages_def suffix_to_prefix)
  have h1: "\<forall>p. 1 \<le> p \<and> p \<le> 1 \<longrightarrow>
      one_full_page (page_request ?R op p) = Inr (JList (pages p)) \<and> length (pages p) = 100"
    if "op = Branches \<or> (\<exists>m. op = Issue_comments 7 m)" for op
  proof (intro allI impI)
    fix p :: nat
    assume "1 \<le> p \<and> p \<le> 1"
    then have "p = Suc 0"
      by arith
    then show "one_full_page (page_request ?R op p) = Inr (JList (pages p))
        \<and> length (pages p) = 100"
      using first [OF that] by simp
  qed
  have h2: "one_full_page (page_request ?R op (Suc 1)) = Inr (JList [])"
    if "op = Branches \<or> (\<exists>m. op = Issue_comments 7 m)" for op
    using that
    by (elim disjE exE; simp only: page_request_def q One_nat_def)
      (simp_all add: one_full_page_def get_request_def Repo_init_def suffix_to_prefix)
  have two: "[Suc 0..<Suc (Suc (Suc 0))] = [Suc 0, Suc (Suc 0)]"
      "[Suc 0..<Suc (Suc 0)] = [Suc 0]"
    by (simp_all add: upt_rec)
  have a: "Branches = Branches \<or> (\<exists>m. Branches = Issue_comments 7 m)"
    by simp
  have b: "Issue_comments 7 m = Branches \<or> (\<exists>m'. Issue_comments 7 m = Issue_comments 7 m')" for m
    by simp
  show ?thesis
    using
      full_last_page_costs_one_empty_request
        [where op = Branches and n = 1 and tr = one_full_page and username = "''octocat''"
           and name = "''hello''" and token = None and pages = pages and log = "[]",
         OF h1 [OF a] h2 [OF a]]
      full_last_page_costs_one_empty_request
        [where op = "Issue_comments 7 1000" and n = 1 and tr = one_full_page
           and username = "''octocat''" and name = "''hello''" and token = None
           and pages = pages and log = "[]",
         OF h1 [OF b] h2 [OF b]]
      full_last_page_costs_one_empty_request
        [where op = "Issue_comments 7 100" and n = 1 and tr = one_full_page
           and username = "''octocat''" and name = "''hello''" and token = None
           and pages = pages and log = "[]",
         OF h1 [OF b] h2 [OF b]]
    by (simp add: two pages_def page_request_def q del: op_query.simps upt_Suc)
qed

text \<open>
  C5 as stated fails for \<^verbatim>\<open>Repo.issue_comments\<close>: with \<open>max_count = 100\<close>, one page of 100
  comments and an empty second page, the loop ends on the cap after a single request,
  not after two.
\<close>

theorem capped_fetch_skips_the_empty_request:
  "one_full_page (page_request (Repo_init ''octocat'' ''hello'' None) (Issue_comments 7 100) 1)
     = Inr (JList (replicate 100 JNull))
   \<and> one_full_page (page_request (Repo_init ''octocat'' ''hello'' None) (Issue_comments 7 100) 2)
     = Inr (JList [])
   \<and> run_op one_full_page (Repo_init ''octocat'' ''hello'' None) (Issue_comments 7 100) [] =
     Some (Inr (replicate 100 JNull),
           [get_request (Repo_init ''octocat'' ''hello'' None)
              ''issues/7/comments?per_page=100&page=1''])
   \<and> map_option (length \<circ> snd)
         (run_op one_full_page (Repo_init ''octocat'' ''hello'' None) (Issue_comments 7 100) [])
       \<noteq> Some (1 + 1)"
proof -
  define pages where "pages = (\<lambda>p::nat. replicate 100 JNull)"
  let ?R = "Repo_init ''octocat'' ''hello'' None"
  have q: "op_query (Issue_comments 7 100) (Suc 0) = ''issues/7/comments?per_page=100&page=1''"
      "op_query (Issue_comments 7 100) 2 = ''issues/7/comments?per_page=100&page=2''"
    by (simp_all add: issue_comments_query_def str_int_def str_nat.simps digit_char_def)
  have p1: "one_full_page (page_request ?R (Issue_comments 7 100) 1)
      = Inr (JList (replicate 100 JNull))"
    by (simp only: page_request_def q One_nat_def)
      (simp add: one_full_page_def get_request_def Repo_init_def suffix_to_prefix)
  have p2: "one_full_page (page_request ?R (Issue_comments 7 100) 2) = Inr (JList [])"
    by (simp only: page_request_def q)
      (simp add: one_full_page_def get_request_def Repo_init_def suffix_to_prefix)
  have "run_op one_full_page ?R (Issue_comments 7 100) [] =
      Some (Inr (concat (map pages [1..<Suc 1])),
            [] @ map (page_request ?R (Issue_comments 7 100)) [1..<Suc 1])"
  proof (rule run_op_returns [OF refl])
    show "(1::nat) \<le> 1" by simp
    show "\<forall>p. 1 \<le> p \<and> p < 1 \<longrightarrow>
        one_full_page (page_request ?R (Issue_comments 7 100) p) = Inr (JList (pages p))
        \<and> \<not> stop_at (Issue_comments 7 100) pages p"
      by simp
    show "one_full_page (page_request ?R (Issue_comments 7 100) 1) = Inr (JList (pages 1))"
      using p1 by (simp add: pages_def)
    show "stop_at (Issue_comments 7 100) pages 1"
      by (simp add: stop_at_def pages_def)
  qed
  then have run: "run_op one_full_page ?R (Issue_comments 7 100) [] =
     Some (Inr (replicate 100 JNull),
           [get_request ?R ''issues/7/comments?per_page=100&page=1''])"
    by (simp add: pages_def page_request_def q del: op_query.simps)
  show ?thesis
    by (simp only: p1 p2 run) simp
qed

subsection \<open>GraphQL mutations\<close>

text \<open>
  C2, as amended. \<^verbatim>\<open>GitHub.graphql_mutation\<close> issues one POST; when the decoded response
  is an object with an \<^verbatim>\<open>"errors"\<close> key it returns that object unchanged and raises
  nothing; otherwise it returns \<^verbatim>\<open>response["data"]\<close>, the object that still holds the
  payload under the mutation's name (\<^verbatim>\<open>KeyError\<close> when there is no \<^verbatim>\<open>"data"\<close>).
\<close>

theorem graphql_mutation_returns_errors_or_data:
  "\<exists>r. snd (graphql_mutation tr (GitHub_init token) mutation_name mutation_input_name
              mutation_input mutation_payload extra_headers log) = log @ [r]
       \<and> rq_verb r = ''POST''
       \<and> (\<forall>response. tr r = Inr (JDict response) \<longrightarrow>
            fst (graphql_mutation tr (GitHub_init token) mutation_name mutation_input_name
                   mutation_input mutation_payload extra_headers log) =
              (if ''errors'' \<in> set (map fst response) then Inr (JDict response)
               else (case map_of response ''data'' of
                       None \<Rightarrow> Inl KeyError
                     | Some d \<Rightarrow> Inr d)))"
proof -
  define r where "r =
     \<lparr> rq_verb = ''POST'', rq_url = Div (Url ''https://api.github.com'') ''graphql'',
       rq_headers = merged_headers (GitHub_init token) extra_headers,
       rq_data = None,
       rq_json = Some (JDict
         [(''query'', JStr (''mutation($mutationInput:'' @ mutation_input_name @ ''!) ''
             @ ''{'' @ mutation_name @ ''(input:$mutationInput) {''
             @ mutation_payload @ ''}}'')),
          (''variables'', JDict [(''mutationInput'', mutation_input)])]),
       rq_response_type = Some ''json'' \<rparr>"
  have verb: "rq_verb r = ''POST''"
    by (simp add: r_def)
  have api: "map_of (gh_endpoint (GitHub_init token)) ''api'' = Some (Url ''https://api.github.com'')"
    by (simp add: GitHub_init_def)
  have run: "graphql_mutation tr (GitHub_init token) mutation_name mutation_input_name
              mutation_input mutation_payload extra_headers log =
      (case tr r of
         Inl e \<Rightarrow> (Inl (Transport e), log @ [r])
       | Inr response \<Rightarrow>
           (case py_contains ''errors'' response of
              Inl e \<Rightarrow> (Inl e, log @ [r])
            | Inr True \<Rightarrow> (Inr response, log @ [r])
            | Inr False \<Rightarrow> (py_getitem response ''data'', log @ [r])))"
    unfolding graphql_mutation_def api request_def r_def
    by (simp split: sum.splits bool.splits)
  have log: "snd (graphql_mutation tr (GitHub_init token) mutation_name mutation_input_name
              mutation_input mutation_payload extra_headers log) = log @ [r]"
    unfolding run by (simp split: sum.splits bool.splits)
  have res: "fst (graphql_mutation tr (GitHub_init token) mutation_name mutation_input_name
                   mutation_input mutation_payload extra_headers log) =
              (if ''errors'' \<in> set (map fst response) then Inr (JDict response)
               else (case map_of response ''data'' of
                       None \<Rightarrow> Inl KeyError
                     | Some d \<Rightarrow> Inr d))"
    if "tr r = Inr (JDict response)" for response
    unfolding run that by simp
  show ?thesis
    using verb log res by blast
qed

theorem graphql_mutation_returns_errors_or_data_witness:
  "fst (graphql_mutation refusing (GitHub_init None) ''createBranchProtectionRule''
          ''CreateBranchProtectionRuleInput'' (JDict []) ''branchProtectionRule {id}'' None [])
     = Inr (JDict [(''errors'', JList [JDict [(''message'', JStr ''denied'')]])])
   \<and> fst (graphql_mutation rule_created (GitHub_init None) ''createBranchProtectionRule''
          ''CreateBranchProtectionRuleInput'' (JDict []) ''branchProtectionRule {id}'' None [])
     = Inr (JDict [(''createBranchProtectionRule'',
              JDict [(''branchProtectionRule'', JDict [(''id'', JStr ''BPR_1'')])])])"
proof
  obtain r where
    "\<forall>response. refusing r = Inr (JDict response) \<longrightarrow>
       fst (graphql_mutation refusing (GitHub_init None) ''createBranchProtectionRule''
          ''CreateBranchProtectionRuleInput'' (JDict []) ''branchProtectionRule {id}'' None []) =
         (if ''errors'' \<in> set (map fst response) then Inr (JDict response)
          else (case map_of response ''data'' of None \<Rightarrow> Inl KeyError | Some d \<Rightarrow> Inr d))"
    using graphql_mutation_returns_errors_or_data
      [of refusing None "''createBranchProtectionRule''" "''CreateBranchProtectionRuleInput''"
          "JDict []" "''branchProtectionRule {id}''" None "[]"]
    by blast
  then show "fst (graphql_mutation refusing (GitHub_init None) ''createBranchProtectionRule''
          ''CreateBranchProtectionRuleInput'' (JDict []) ''branchProtectionRule {id}'' None [])
     = Inr (JDict [(''errors'', JList [JDict [(''message'', JStr ''denied'')]])])"
    by (simp add: refusing_def)
next
  obtain r where r: "rq_verb r = ''POST''"
    "\<forall>response. rule_created r = Inr (JDict response) \<longrightarrow>
       fst (graphql_mutation rule_created (GitHub_init None) ''createBranchProtectionRule''
          ''CreateBranchProtectionRuleInput'' (JDict []) ''branchProtectionRule {id}'' None []) =
         (if ''errors'' \<in> set (map fst response) then Inr (JDict response)
          else (case map_of response ''data'' of None \<Rightarrow> Inl KeyError | Some d \<Rightarrow> Inr d))"
    using graphql_mutation_returns_errors_or_data
      [of rule_created None "''createBranchProtectionRule''" "''CreateBranchProtectionRuleInput''"
          "JDict []" "''branchProtectionRule {id}''" None "[]"]
    by blast
  then show "fst (graphql_mutation rule_created (GitHub_init None) ''createBranchProtectionRule''
          ''CreateBranchProtectionRuleInput'' (JDict []) ''branchProtectionRule {id}'' None [])
     = Inr (JDict [(''createBranchProtectionRule'',
              JDict [(''branchProtectionRule'', JDict [(''id'', JStr ''BPR_1'')])])])"
    by (simp add: rule_created_def)
qed

text \<open>
  C2 as stated fails: on a successful response the result of \<^verbatim>\<open>graphql_mutation\<close> is
  \<^verbatim>\<open>response["data"]\<close>, which differs from \<^verbatim>\<open>response["data"][mutationName]\<close>. The
  indexing by the mutation's name is done by the caller,
  \<^verbatim>\<open>Repo.branch_protection_rule_create\<close>, which returns the rule's id.
\<close>

theorem graphql_mutation_leaves_unwrapping_to_caller:
  "fst (graphql_mutation rule_created (GitHub_init None) ''createBranchProtectionRule''
          ''CreateBranchProtectionRuleInput'' (JDict []) ''branchProtectionRule {id}'' None [])
     = Inr (JDict [(''createBranchProtectionRule'',
              JDict [(''branchProtectionRule'', JDict [(''id'', JStr ''BPR_1'')])])])
   \<and> (py_getitem
        (JDict [(''createBranchProtectionRule'',
              JDict [(''branchProtectionRule'', JDict [(''id'', JStr ''BPR_1'')])])])
        ''createBranchProtectionRule'' :: nat exn + json)
     = Inr (JDict [(''branchProtectionRule'', JDict [(''id'', JStr ''BPR_1'')])])
   \<and> fst (graphql_mutation rule_created (GitHub_init None) ''createBranchProtectionRule''
          ''CreateBranchProtectionRuleInput'' (JDict []) ''branchProtectionRule {id}'' None [])
     \<noteq> Inr (JDict [(''branchProtectionRule'', JDict [(''id'', JStr ''BPR_1'')])])
   \<and> fst (Repo_branch_protection_rule_create rule_created
            (Repo_init ''octocat'' ''hello'' None) [(''pattern'', JStr ''main'')] [])
     = Inr (JStr ''BPR_1'')"
  by (simp add: graphql_mutation_def Repo_branch_protection_rule_create_def GitHub_init_def
      Repo_init_def Repo_get_def Repo_rest_query_def rest_query_def request_def
      rule_created_def arg_map_def)

subsection \<open>The bearer token\<close>

lemma map_of_dict_or_other:
  "k \<notin> set (map fst e) \<Longrightarrow> map_of (dict_or d e) k = map_of d k"
proof (induction e arbitrary: d)
  case Nil
  show ?case by (simp add: dict_or_def)
next
  case (Cons x e)
  have "dict_or d (x # e) = dict_or (AList.update (fst x) (snd x) d) e"
    by (simp add: dict_or_def)
  then show ?case
    using Cons by (simp add: update_conv')
qed

lemma merged_headers_authorization:
  assumes "\<forall>extra. extra_headers = Some extra \<longrightarrow> ''Authorization'' \<notin> set (map fst extra)"
  shows "map_of (merged_headers self extra_headers) ''Authorization'' =
         map_of (gh_headers self) ''Authorization''"
  using assms
  by (simp add: merged_headers_def map_of_dict_or_other split: option.splits)

lemma own_authorization:
  "map_of (gh_headers (GitHub_init token)) ''Authorization'' =
     (case token of None \<Rightarrow> None | Some t \<Rightarrow> if t \<noteq> [] then Some (''Bearer '' @ t) else None)"
  by (simp add: GitHub_init_def split: option.splits)

lemma rest_query_requests:
  "r \<in> set (snd (rest_query tr self query verb data js response_type extra_headers endpoint []))
   \<Longrightarrow> rq_headers r = merged_headers self extra_headers"
  by (auto simp add: rest_query_def request_def split: option.splits)

lemma graphql_query_requests:
  "r \<in> set (snd (graphql_query tr self query mutation extra_headers response_type []))
   \<Longrightarrow> rq_headers r = merged_headers self extra_headers"
  by (auto simp add: graphql_query_def request_def split: option.splits)

lemma graphql_mutation_requests:
  "r \<in> set (snd (graphql_mutation tr self mutation_name mutation_input_name mutation_input
                    mutation_payload extra_headers []))
   \<Longrightarrow> rq_headers r = merged_headers self extra_headers"
  by (auto simp add: graphql_mutation_def request_def
      split: option.splits sum.splits bool.splits)

text \<open>
  C10, as amended. \<^verbatim>\<open>authenticated\<close> is true exactly when the token is not \<^verbatim>\<open>None\<close>.
  The client's own headers hold \<^verbatim>\<open>Authorization: Bearer <token>\<close> exactly when the token
  is a non-empty string, and so does every request of \<^verbatim>\<open>rest_query\<close>,
  \<^verbatim>\<open>graphql_query\<close> and \<^verbatim>\<open>graphql_mutation\<close> whose \<^verbatim>\<open>extra_headers\<close> do not name
  \<^verbatim>\<open>Authorization\<close> themselves. With the empty token the client is \<^verbatim>\<open>authenticated\<close>
  and such requests carry no \<^verbatim>\<open>Authorization\<close> header.
\<close>

theorem bearer_header_follows_truthiness:
  assumes "\<forall>extra. extra_headers = Some extra \<longrightarrow> ''Authorization'' \<notin> set (map fst extra)"
  shows "authenticated (GitHub_init token) = (token \<noteq> None)
       \<and> map_of (gh_headers (GitHub_init token)) ''Authorization'' =
           (case token of None \<Rightarrow> None
            | Some t \<Rightarrow> if t \<noteq> [] then Some (''Bearer '' @ t) else None)
       \<and> (\<forall>r \<in> set (snd (rest_query tr (GitHub_init token) query verb data js response_type
                              extra_headers endpoint []))
               \<union> set (snd (graphql_query tr (GitHub_init token) gquery mutation
                              extra_headers response_type []))
               \<union> set (snd (graphql_mutation tr (GitHub_init token) mutation_name
                              mutation_input_name mutation_input mutation_payload
                              extra_headers [])).
             map_of (rq_headers r) ''Authorization'' =
               (case token of None \<Rightarrow> None
                | Some t \<Rightarrow> if t \<noteq> [] then Some (''Bearer '' @ t) else None))
       \<and> (token = Some [] \<longrightarrow>
             authenticated (GitHub_init token)
             \<and> (\<forall>r \<in> set (snd (rest_query tr (GitHub_init token) query verb data js
                                   response_type extra_headers endpoint []))
                    \<union> set (snd (graphql_query tr (GitHub_init token) gquery mutation
                                   extra_headers response_type []))
                    \<union> set (snd (graphql_mutation tr (GitHub_init token) mutation_name
                                   mutation_input_name mutation_input mutation_payload
                                   extra_headers [])).
                  map_of (rq_headers r) ''Authorization'' = None))"
proof -
  have auth: "authenticated (GitHub_init token) = (token \<noteq> None)"
    by (simp add: authenticated_def GitHub_init_def)
  have sent: "map_of (rq_headers r) ''Authorization'' =
               (case token of None \<Rightarrow> None
                | Some t \<Rightarrow> if t \<noteq> [] then Some (''Bearer '' @ t) else None)"
    if "r \<in> set (snd (rest_query tr (GitHub_init token) query verb data js response_type
                              extra_headers endpoint []))
               \<union> set (snd (graphql_query tr (GitHub_init token) gquery mutation
                              extra_headers response_type []))
               \<union> set (snd (graphql_mutation tr (GitHub_init token) mutation_name
                              mutation_input_name mutation_input mutation_payload
                              extra_headers []))" for r
  proof -
    have "rq_headers r = merged_headers (GitHub_init token) extra_headers"
      using that
      by (auto dest: rest_query_requests graphql_query_requests graphql_mutation_requests)
    then show ?thesis
      by (simp only: merged_headers_authorization [OF assms] own_authorization)
  qed
  have empty: "map_of (rq_headers r) ''Authorization'' = None"
    if "token = Some []"
      "r \<in> set (snd (rest_query tr (GitHub_init token) query verb data js response_type
                              extra_headers endpoint []))
               \<union> set (snd (graphql_query tr (GitHub_init token) gquery mutation
                              extra_headers response_type []))
               \<union> set (snd (graphql_mutation tr (GitHub_init token) mutation_name
                              mutation_input_name mutation_input mutation_payload
                              extra_headers []))" for r
    using sent [OF that(2)] that(1) by simp
  show ?thesis
    using auth own_authorization sent empty by (intro conjI ballI impI) auto
qed

theorem bearer_header_follows_truthiness_witness:
  "authenticated (GitHub_init (Some ''s3cr3t''))
   \<and> map_of (rq_headers (hd (snd (rest_query no_content (GitHub_init (Some ''s3cr3t''))
            ''user'' ''GET'' None None (Some ''json'') None ''api'' [])))) ''Authorization''
       = Some ''Bearer s3cr3t''
   \<and> authenticated (GitHub_init (Some []))
   \<and> map_of (rq_headers (hd (snd (rest_query no_content (GitHub_init (Some []))
            ''user'' ''GET'' None None (Some ''json'') None ''api'' [])))) ''Authorization''
       = None"
proof -
  have none: "\<forall>extra. (None :: (string \<times> string) list option) = Some extra
      \<longrightarrow> ''Authorization'' \<notin> set (map fst extra)"
    by simp
  have m1: "hd (snd (rest_query no_content (GitHub_init (Some ''s3cr3t''))
            ''user'' ''GET'' None None (Some ''json'') None ''api'' []))
      \<in> set (snd (rest_query no_content (GitHub_init (Some ''s3cr3t''))
            ''user'' ''GET'' None None (Some ''json'') None ''api'' []))"
    by (simp add: rest_query_def request_def GitHub_init_def)
  have m2: "hd (snd (rest_query no_content (GitHub_init (Some []))
            ''user'' ''GET'' None None (Some ''json'') None ''api'' []))
      \<in> set (snd (rest_query no_content (GitHub_init (Some []))
            ''user'' ''GET'' None None (Some ''json'') None ''api'' []))"
    by (simp add: rest_query_def request_def GitHub_init_def)
  show ?thesis
    using bearer_header_follows_truthiness
        [where extra_headers = None and token = "Some ''s3cr3t''" and tr = no_content
           and query = "''user''" and verb = "''GET''" and data = None and js = None
           and response_type = "Some ''json''" and endpoint = "''api''", OF none] m1
      bearer_header_follows_truthiness
        [where extra_headers = None and token = "Some []" and tr = no_content
           and query = "''user''" and verb = "''GET''" and data = None and js = None
           and response_type = "Some ''json''" and endpoint = "''api''", OF none] m2
    by (simp del: set_simps)
qed

text \<open>
  C10 as stated fails on requests whose \<^verbatim>\<open>extra_headers\<close> name \<^verbatim>\<open>Authorization\<close>:
  \<^verbatim>\<open>self._headers | extra_headers\<close> lets the caller's entry win. With the empty token
  such a request does carry an \<^verbatim>\<open>Authorization\<close> header, and with a non-empty token it
  does not carry the bearer header.
\<close>

theorem extra_headers_override_authorization:
  "authenticated (GitHub_init (Some []))
   \<and> snd (rest_query no_content (GitHub_init (Some [])) ''user'' ''GET'' None None
            (Some ''json'') (Some [(''Authorization'', ''Basic dTpw'')]) ''api'' [])
       = [\<lparr> rq_verb = ''GET'', rq_url = Div (Url ''https://api.github.com'') ''user'',
             rq_headers = [(''X-GitHub-Api-Version'', ''2022-11-28''),
                           (''Authorization'', ''Basic dTpw'')],
             rq_data = None, rq_json = None, rq_response_type = Some ''json'' \<rparr>]
   \<and> truthy (Some ''s3cr3t'')
   \<and> snd (rest_query no_content (GitHub_init (Some ''s3cr3t'')) ''user'' ''GET'' None None
            (Some ''json'') (Some [(''Authorization'', ''Basic dTpw'')]) ''api'' [])
       = [\<lparr> rq_verb = ''GET'', rq_url = Div (Url ''https://api.github.com'') ''user'',
             rq_headers = [(''X-GitHub-Api-Version'', ''2022-11-28''),
                           (''Authorization'', ''Basic dTpw'')],
             rq_data = None, rq_json = None, rq_response_type = Some ''json'' \<rparr>]"
  by (simp add: authenticated_def GitHub_init_def rest_query_def request_def
      merged_headers_def dict_or_def truthy_def)

subsection \<open>Payloads\<close>

lemma Repo_rest_query_init:
  "Repo_rest_query tr (Repo_init u n t) query verb data js response_type None ''api'' log =
     (fst (request tr
        \<lparr> rq_verb = verb,
          rq_url = Div (Url ''https://api.github.com'') (''repos/'' @ u @ ''/'' @ n @ ''/'' @ query),
          rq_headers = gh_headers (GitHub_init t),
          rq_data = data, rq_json = js, rq_response_type = response_type \<rparr> log),
      log @ [\<lparr> rq_verb = verb,
          rq_url = Div (Url ''https://api.github.com'') (''repos/'' @ u @ ''/'' @ n @ ''/'' @ query),
          rq_headers = gh_headers (GitHub_init t),
          rq_data = data, rq_json = js, rq_response_type = response_type \<rparr>])"
  by (simp add: Repo_rest_query_def rest_query_def Repo_init_def merged_headers_def request_def
      GitHub_init_def)

text \<open>
  C8. \<^verbatim>\<open>Repo.issue_update\<close> and \<^verbatim>\<open>Repo.pull_merge\<close> each issue one request. A field of
  its JSON payload is present exactly when the argument of that name is not \<^verbatim>\<open>None\<close>, and
  then holds the argument (for \<^verbatim>\<open>issue_update\<close>, \<^verbatim>\<open>str(title)\<close> and \<^verbatim>\<open>str(body)\<close>); the
  payload has no other field. \<^verbatim>\<open>pull_merge\<close> sends no payload at all when all four
  arguments are \<^verbatim>\<open>None\<close>.
\<close>

theorem payload_holds_exactly_the_set_fields:
  "(\<exists>r d. snd (Repo_issue_update tr (Repo_init username name token) number
                 title body state state_reason log) = log @ [r]
       \<and> rq_verb r = ''PATCH''
       \<and> rq_json r = Some (JDict d) \<and> distinct (map fst d)
       \<and> (\<forall>k. payload_field (rq_json r) k =
              (if k = ''title'' then map_option (\<lambda>t. JStr (py_str t)) title
               else if k = ''body'' then map_option JStr body
               else if k = ''state'' then map_option JStr state
               else if k = ''state_reason'' then map_option JStr state_reason
               else None)))
   \<and> (\<exists>r. snd (Repo_pull_merge tr (Repo_init username name token) number
                 commit_title commit_message sha merge_method log) = log @ [r]
       \<and> rq_verb r = ''PUT''
       \<and> (rq_json r = None) =
            (commit_title = None \<and> commit_message = None \<and> sha = None \<and> merge_method = None)
       \<and> (\<forall>k. payload_field (rq_json r) k =
              (if k = ''commit_title'' then map_option JStr commit_title
               else if k = ''commit_message'' then map_option JStr commit_message
               else if k = ''sha'' then map_option JStr sha
               else if k = ''merge_method'' then map_option JStr merge_method
               else None)))"
proof
  show "\<exists>r d. snd (Repo_issue_update tr (Repo_init username name token) number
                 title body state state_reason log) = log @ [r]
       \<and> rq_verb r = ''PATCH''
       \<and> rq_json r = Some (JDict d) \<and> distinct (map fst d)
       \<and> (\<forall>k. payload_field (rq_json r) k =
              (if k = ''title'' then map_option (\<lambda>t. JStr (py_str t)) title
               else if k = ''body'' then map_option JStr body
               else if k = ''state'' then map_option JStr state
               else if k = ''state_reason'' then map_option JStr state_reason
               else None))"
    by (cases title; cases body; cases state; cases state_reason)
      (simp_all add: Repo_issue_update_def Repo_rest_query_init payload_field_def Let_def)
  show "\<exists>r. snd (Repo_pull_merge tr (Repo_init username name token) number
                 commit_title commit_message sha merge_method log) = log @ [r]
       \<and> rq_verb r = ''PUT''
       \<and> (rq_json r = None) =
            (commit_title = None \<and> commit_message = None \<and> sha = None \<and> merge_method = None)
       \<and> (\<forall>k. payload_field (rq_json r) k =
              (if k = ''commit_title'' then map_option JStr commit_title
               else if k = ''commit_message'' then map_option JStr commit_message
               else if k = ''sha'' then map_option JStr sha
               else if k = ''merge_method'' then map_option JStr merge_method
               else None))"
    by (cases commit_title; cases commit_message; cases sha; cases merge_method)
      (simp_all add: Repo_pull_merge_def Repo_rest_query_init payload_field_def Let_def)
qed

theorem payload_holds_exactly_the_set_fields_witness:
  "map (payload_field (rq_json (hd (snd (Repo_issue_update no_content
          (Repo_init ''octocat'' ''hello'' None) 7 (Some (PInt 42)) None (Some ''closed'') None
          [])))))
     [''title'', ''body'', ''state'', ''state_reason'', ''labels'']
     = [Some (JStr ''42''), None, Some (JStr ''closed''), None, None]
   \<and> rq_json (hd (snd (Repo_pull_merge no_content (Repo_init ''octocat'' ''hello'' None) 7
          None None None None []))) = None"
proof -
  obtain r where r: "snd (Repo_issue_update no_content
          (Repo_init ''octocat'' ''hello'' None) 7 (Some (PInt 42)) None (Some ''closed'') None
          []) = [] @ [r]"
    "\<forall>k. payload_field (rq_json r) k =
              (if k = ''title'' then map_option (\<lambda>t. JStr (py_str t)) (Some (PInt 42))
               else if k = ''body'' then map_option JStr None
               else if k = ''state'' then map_option JStr (Some ''closed'')
               else if k = ''state_reason'' then map_option JStr None
               else None)"
    using payload_holds_exactly_the_set_fields
      [where tr = no_content and username = "''octocat''" and name = "''hello''"
         and token = None and number = 7 and title = "Some (PInt 42)" and body = None
         and state = "Some ''closed''" and state_reason = None and log = "[]"]
    by blast
  obtain m where m: "snd (Repo_pull_merge no_content (Repo_init ''octocat'' ''hello'' None) 7
          None None None None []) = [] @ [m]"
    "(rq_json m = None) =
       ((None :: string option) = None \<and> (None :: string option) = None
        \<and> (None :: string option) = None \<and> (None :: string option) = None)"
    using payload_holds_exactly_the_set_fields
      [where tr = no_content and username = "''octocat''" and name = "''hello''"
         and token = None and number = 7 and commit_title = None and commit_message = None
         and sha = None and merge_method = None and log = "[]"]
    by blast
  have "py_str (PInt 42) = ''42''"
    by (simp add: str_int_def str_nat.simps digit_char_def)
  then show ?thesis
    using r m by simp
qed

subsection \<open>Validation before any request\<close>

lemma pattern_examples:
  "topic_pattern_match ''machine-learning''"
  "topic_pattern_match ''3d''"
  "\<not> topic_pattern_match ''-python''"
  "\<not> topic_pattern_match ''Python''"
  "\<not> topic_pattern_match ''''"
  "topic_pattern_match (''python'' @ [CHR 0x0A])"
  "color_pattern_match ''0e8A16''"
  "\<not> color_pattern_match ''#0e8a16''"
  "\<not> color_pattern_match ''fff''"
  "\<not> color_pattern_match ''0e8a16ff''"
  by (simp_all add: topic_pattern_match_def color_pattern_match_def at_end_def
      lower_alnum_def hex_digits_def)

lemma check_topics_first_bad:
  "(check_topics topics :: 'e exn option) =
     (case find bad_topic topics of
        None \<Rightarrow> None
      | Some (JStr s) \<Rightarrow> Some ValueError
      | Some _ \<Rightarrow> Some TypeError)"
  by (induction topics rule: check_topics.induct) (simp_all add: bad_topic_def)

lemma check_topics_refuses:
  assumes "\<exists>t \<in> set topics. bad_topic t"
  shows "(check_topics topics :: 'e exn option) \<in> {Some TypeError, Some ValueError}"
proof -
  have "find bad_topic topics \<noteq> None"
    using assms by (auto simp add: find_None_iff)
  then obtain t where "find bad_topic topics = Some t"
    by auto
  then show ?thesis
    by (cases t) (simp_all add: check_topics_first_bad)
qed

lemma validate_label_data_refuses:
  assumes "(\<exists>c. color = JStr c \<and> c \<noteq> [] \<and> \<not> color_pattern_match c)
           \<or> (\<exists>d. description = JStr d \<and> 100 < length d)"
  shows "(validate_label_data name color description :: 'e exn option)
           \<in> {Some TypeError, Some ValueError}"
  using assms
  by (induction name color description rule: validate_label_data.induct) auto

text \<open>
  C3. When the topic list holds a topic that is not a string, is longer than 50
  characters or does not match \<^verbatim>\<open>^[a-z0-9][a-z0-9\-]*$\<close>, \<^verbatim>\<open>Repo.repo_topics_replace\<close>
  raises \<^verbatim>\<open>TypeError\<close> or \<^verbatim>\<open>ValueError\<close> and the log of requests is as it was. So does
  \<^verbatim>\<open>Repo.label_create\<close> when the color is a non-empty string that does not match
  \<^verbatim>\<open>^[0-9a-fA-F]{6}$\<close> or the description is longer than 100 characters.
\<close>

theorem validation_fails_before_any_request:
  "((\<exists>t \<in> set topics. bad_topic t) \<longrightarrow>
      Repo_repo_topics_replace tr self topics log
        \<in> {(Inl TypeError, log), (Inl ValueError, log)})
   \<and> ((\<exists>c. color = JStr c \<and> c \<noteq> [] \<and> \<not> color_pattern_match c)
        \<or> (\<exists>d. description = JStr d \<and> 100 < length d) \<longrightarrow>
      Repo_label_create tr self name color description log
        \<in> {(Inl TypeError, log), (Inl ValueError, log)})"
proof (intro conjI impI)
  assume "\<exists>t \<in> set topics. bad_topic t"
  then have "(check_topics topics :: 'a exn option) \<in> {Some TypeError, Some ValueError}"
    by (rule check_topics_refuses)
  then show "Repo_repo_topics_replace tr self topics log
        \<in> {(Inl TypeError, log), (Inl ValueError, log)}"
    by (auto simp add: Repo_repo_topics_replace_def)
next
  assume "(\<exists>c. color = JStr c \<and> c \<noteq> [] \<and> \<not> color_pattern_match c)
        \<or> (\<exists>d. description = JStr d \<and> 100 < length d)"
  then have "(validate_label_data name color description :: 'a exn option)
      \<in> {Some TypeError, Some ValueError}"
    by (rule validate_label_data_refuses)
  then show "Repo_label_create tr self name color description log
        \<in> {(Inl TypeError, log), (Inl ValueError, log)}"
    by (auto simp add: Repo_label_create_def)
qed

theorem validation_fails_before_any_request_witness:
  "bad_topic (JStr ''Machine Learning'')
   \<and> Repo_repo_topics_replace no_content (Repo_init ''octocat'' ''hello'' None)
        [JStr ''python'', JStr ''Machine Learning'', JInt 3] []
      \<in> {(Inl TypeError, []), (Inl ValueError, [])}
   \<and> \<not> color_pattern_match ''#0e8a16''
   \<and> Repo_label_create no_content (Repo_init ''octocat'' ''hello'' None)
        (JStr ''bug'') (JStr ''#0e8a16'') (JStr ''Something is not working'') []
      \<in> {(Inl TypeError, []), (Inl ValueError, [])}"
proof -
  have t: "bad_topic (JStr ''Machine Learning'')"
    by (simp add: bad_topic_def topic_pattern_match_def lower_alnum_def)
  have c: "\<not> color_pattern_match ''#0e8a16''"
    by (simp add: color_pattern_match_def hex_digits_def)
  have h1: "\<exists>t \<in> set [JStr ''python'', JStr ''Machine Learning'', JInt 3]. bad_topic t"
    using t by simp
  have h2: "(\<exists>c. JStr ''#0e8a16'' = JStr c \<and> c \<noteq> [] \<and> \<not> color_pattern_match c)
        \<or> (\<exists>d. JStr ''Something is not working'' = JStr d \<and> 100 < length d)"
    using c by simp
  show ?thesis
    using validation_fails_before_any_request
      [where topics = "[JStr ''python'', JStr ''Machine Learning'', JInt 3]"
         and color = "JStr ''#0e8a16''" and description = "JStr ''Something is not working''"
         and tr = no_content and self = "Repo_init ''octocat'' ''hello'' None"
         and name = "JStr ''bug''" and log = "[]"]
      t c h1 h2
    by blast
qed

subsection \<open>The DOI constructor\<close>

lemma match_identifier_complete:
  assumes "ds \<noteq> []" "set ds \<subseteq> set decimal_digits"
    and "rest \<noteq> []" "set rest \<inter> set whitespace = {}"
  shows "match_identifier (''10.'' @ ds @ ''/'' @ rest @ tail) =
         Some (''10.'' @ ds @ ''/'' @ rest @ takeWhile (\<lambda>c. c \<notin> set whitespace) tail)"
proof -
  have slash: "CHR ''/'' \<notin> set decimal_digits"
    by (simp add: decimal_digits_def)
  have tw: "takeWhile (\<lambda>c. c \<in> set decimal_digits) (ds @ CHR ''/'' # rest @ tail) = ds"
    using assms(2) slash by (simp add: subset_iff)
  have dw: "dropWhile (\<lambda>c. c \<in> set decimal_digits) (ds @ CHR ''/'' # rest @ tail)
      = CHR ''/'' # rest @ tail"
    using assms(2) slash by (simp add: subset_iff)
  have rs: "takeWhile (\<lambda>c. c \<notin> set whitespace) (rest @ tail)
      = rest @ takeWhile (\<lambda>c. c \<notin> set whitespace) tail"
    using assms(4) by (simp add: disjoint_iff)
  show ?thesis
    using assms(1,3) by (simp add: match_identifier_def tw dw rs Let_def)
qed

lemma match_identifier_sound:
  assumes "match_identifier s = Some d"
  shows "\<exists>ds rest tail. s = ''10.'' @ ds @ ''/'' @ rest @ tail \<and> d = ''10.'' @ ds @ ''/'' @ rest
           \<and> ds \<noteq> [] \<and> set ds \<subseteq> set decimal_digits
           \<and> rest \<noteq> [] \<and> set rest \<inter> set whitespace = {}"
proof -
  define r where "r = drop 3 s"
  define ds where "ds = takeWhile (\<lambda>c. c \<in> set decimal_digits) r"
  define r' where "r' = dropWhile (\<lambda>c. c \<in> set decimal_digits) r"
  define rest where "rest = takeWhile (\<lambda>c. c \<notin> set whitespace) (drop 1 r')"
  define tail where "tail = dropWhile (\<lambda>c. c \<notin> set whitespace) (drop 1 r')"
  have p: "prefix ''10.'' s" and ds: "ds \<noteq> []" and sl: "prefix ''/'' r'" and rest: "rest \<noteq> []"
    and d: "d = ''10.'' @ ds @ ''/'' @ rest"
    using assms
    by (simp_all add: match_identifier_def Let_def r_def ds_def r'_def rest_def
        split: if_splits)
  have "s = ''10.'' @ r"
    using p by (auto simp add: r_def prefix_def)
  moreover have "r = ds @ r'"
    by (simp add: ds_def r'_def)
  moreover have "r' = ''/'' @ drop 1 r'"
    using sl by (auto simp add: prefix_def)
  moreover have "drop 1 r' = rest @ tail"
    by (simp add: rest_def tail_def)
  ultimately have s: "s = ''10.'' @ ds @ ''/'' @ rest @ tail"
    by simp
  have "set ds \<subseteq> set decimal_digits"
    by (auto simp add: ds_def dest: set_takeWhileD)
  moreover have "set rest \<inter> set whitespace = {}"
    by (auto simp add: rest_def dest: set_takeWhileD)
  ultimately show ?thesis
    using s d ds rest by blast
qed

lemma opt_Some_iff:
  "(opt p k s \<noteq> None) = (k s \<noteq> None \<or> (\<exists>s'. s = p @ s' \<and> k s' \<noteq> None))"
  by (auto simp add: opt_def prefix_def split: option.splits if_splits)

lemma opt_scheme_Some_iff:
  "(opt_scheme k s \<noteq> None) =
     (k s \<noteq> None \<or> (\<exists>s'. s = ''http://'' @ s' \<and> k s' \<noteq> None)
      \<or> (\<exists>s'. s = ''https://'' @ s' \<and> k s' \<noteq> None))"
  unfolding opt_scheme_def
  by (auto simp add: prefix_def split: option.splits if_splits)

lemma match_identifier_iff:
  "(match_identifier s \<noteq> None) =
     (\<exists>ds rest tail. s = ''10.'' @ ds @ ''/'' @ rest @ tail
        \<and> ds \<noteq> [] \<and> set ds \<subseteq> set decimal_digits
        \<and> rest \<noteq> [] \<and> set rest \<inter> set whitespace = {})"
proof
  assume "match_identifier s \<noteq> None"
  then obtain d where "match_identifier s = Some d"
    by auto
  from match_identifier_sound [OF this]
  show "\<exists>ds rest tail. s = ''10.'' @ ds @ ''/'' @ rest @ tail
        \<and> ds \<noteq> [] \<and> set ds \<subseteq> set decimal_digits
        \<and> rest \<noteq> [] \<and> set rest \<inter> set whitespace = {}"
    by blast
next
  assume "\<exists>ds rest tail. s = ''10.'' @ ds @ ''/'' @ rest @ tail
        \<and> ds \<noteq> [] \<and> set ds \<subseteq> set decimal_digits
        \<and> rest \<noteq> [] \<and> set rest \<inter> set whitespace = {}"
  then obtain ds rest tail where "s = ''10.'' @ ds @ ''/'' @ rest @ tail"
    "ds \<noteq> []" "set ds \<subseteq> set decimal_digits" "rest \<noteq> []" "set rest \<inter> set whitespace = {}"
    by blast
  then show "match_identifier s \<noteq> None"
    using match_identifier_complete [of ds rest tail] by simp
qed

lemma opt_hit: "k s' = Some r \<Longrightarrow> opt p k (p @ s') = Some r"
  by (simp add: opt_def)

lemma opt_skip: "\<not> prefix p s \<Longrightarrow> opt p k s = k s"
  by (simp add: opt_def)

lemma opt_scheme_hit:
  assumes "k s' = Some r"
  shows "opt_scheme k (''https://'' @ s') = Some r" and "opt_scheme k (''http://'' @ s') = Some r"
  using assms by (simp_all add: opt_scheme_def)

lemma opt_scheme_skip:
  "\<not> prefix ''http'' s \<Longrightarrow> opt_scheme k s = k s"
  by (auto simp add: opt_scheme_def prefix_def)

lemma doi_match_exact:
  assumes "scheme \<in> {'''', ''http://'', ''https://''}" "dx \<in> {'''', ''dx.''}"
    and "host \<in> {'''', ''doi.org/''}"
    and "ds \<noteq> []" "set ds \<subseteq> set decimal_digits"
    and "rest \<noteq> []" "set rest \<inter> set whitespace = {}"
  shows "doi_match (scheme @ dx @ host @ ''10.'' @ ds @ ''/'' @ rest)
         = Some (''10.'' @ ds @ ''/'' @ rest)"
proof -
  define ident where "ident = ''10.'' @ ds @ ''/'' @ rest"
  obtain r where one: "ident = CHR ''1'' # r"
    by (simp add: ident_def)
  have i: "match_identifier ident = Some ident"
    using match_identifier_complete [OF assms(4-7), of "[]"] by (simp add: ident_def)
  have h: "opt ''doi.org/'' match_identifier (host @ ident) = Some ident"
  proof (cases "host = []")
    case True
    then show ?thesis
      using i by (simp add: opt_skip one)
  next
    case False
    then have "host = ''doi.org/''"
      using assms(3) by simp
    then show ?thesis
      using i by (simp only: opt_hit)
  qed
  obtain r' where d_or_one: "host @ ident = CHR ''1'' # r' \<or> host @ ident = CHR ''d'' # CHR ''o'' # r'"
    using assms(3) one by auto
  have d: "opt ''dx.'' (opt ''doi.org/'' match_identifier) (dx @ host @ ident) = Some ident"
  proof (cases "dx = []")
    case True
    have "\<not> prefix ''dx.'' (host @ ident)"
      using d_or_one by auto
    then show ?thesis
      using h True by (simp add: opt_skip)
  next
    case False
    then have "dx = ''dx.''"
      using assms(2) by simp
    then show ?thesis
      using h by (simp only: opt_hit)
  qed
  obtain r'' where not_h: "dx @ host @ ident = CHR ''1'' # r'' \<or> dx @ host @ ident = CHR ''d'' # r''"
    using assms(2) d_or_one by auto
  have "opt_scheme (opt ''dx.'' (opt ''doi.org/'' match_identifier))
          (scheme @ dx @ host @ ident) = Some ident"
  proof -
    consider "scheme = []" | "scheme = ''http://''" | "scheme = ''https://''"
      using assms(1) by auto
    then show ?thesis
    proof cases
      case 1
      have "\<not> prefix ''http'' (dx @ host @ ident)"
        using not_h by auto
      then show ?thesis
        using d 1 by (simp add: opt_scheme_skip)
    next
      case 2
      then show ?thesis
        using d by (simp only: opt_scheme_hit)
    next
      case 3
      then show ?thesis
        using d by (simp only: opt_scheme_hit)
    qed
  qed
  then show ?thesis
    by (simp only: doi_match_def ident_def)
qed

lemma opt_Some_cases:
  assumes "opt p k s \<noteq> None"
  obtains q s' where "q = [] \<or> q = p" "s = q @ s'" "k s' \<noteq> None"
proof -
  from assms consider "k s \<noteq> None" | s' where "s = p @ s'" "k s' \<noteq> None"
    unfolding opt_Some_iff by blast
  then show thesis
  proof cases
    case 1
    then show ?thesis
      using that [of "[]" s] by simp
  next
    case 2
    then show ?thesis
      using that [of p s'] by simp
  qed
qed

lemma opt_Some_intro:
  assumes "k s' \<noteq> None" "q = [] \<or> q = p"
  shows "opt p k (q @ s') \<noteq> None"
  unfolding opt_Some_iff using assms by auto

lemma opt_scheme_Some_cases:
  assumes "opt_scheme k s \<noteq> None"
  obtains q s' where "q \<in> {'''', ''http://'', ''https://''}" "s = q @ s'" "k s' \<noteq> None"
proof -
  from assms consider "k s \<noteq> None" | s' where "s = ''http://'' @ s'" "k s' \<noteq> None"
    | s' where "s = ''https://'' @ s'" "k s' \<noteq> None"
    unfolding opt_scheme_Some_iff by blast
  then show thesis
  proof cases
    case 1
    then show ?thesis
      using that [of "[]" s] by simp
  next
    case 2
    have "''http://'' \<in> {'''', ''http://'', ''https://''}"
      by simp
    then show ?thesis
      using that [of "''http://''" s'] 2 by blast
  next
    case 3
    have "''https://'' \<in> {'''', ''http://'', ''https://''}"
      by simp
    then show ?thesis
      using that [of "''https://''" s'] 3 by blast
  qed
qed

lemma opt_scheme_Some_intro:
  assumes "k s' \<noteq> None" "q \<in> {'''', ''http://'', ''https://''}"
  shows "opt_scheme k (q @ s') \<noteq> None"
proof -
  from assms(2) consider "q = []" | "q = ''http://''" | "q = ''https://''"
    by blast
  then show ?thesis
  proof cases
    case 1
    then show ?thesis
      unfolding opt_scheme_Some_iff using assms(1) by simp
  next
    case 2
    then show ?thesis
      unfolding opt_scheme_Some_iff using assms(1) by blast
  next
    case 3
    then show ?thesis
      unfolding opt_scheme_Some_iff using assms(1) by blast
  qed
qed

lemma doi_match_iff: "(doi_match s \<noteq> None) = starts_with_doi s"
proof
  assume "doi_match s \<noteq> None"
  then have "opt_scheme (opt ''dx.'' (opt ''doi.org/'' match_identifier)) s \<noteq> None"
    unfolding doi_match_def .
  then obtain scheme s1 where 1: "scheme \<in> {'''', ''http://'', ''https://''}" "s = scheme @ s1"
      "opt ''dx.'' (opt ''doi.org/'' match_identifier) s1 \<noteq> None"
    by (rule opt_scheme_Some_cases)
  from 1(3) obtain dx s2 where 2: "dx = [] \<or> dx = ''dx.''" "s1 = dx @ s2"
      "opt ''doi.org/'' match_identifier s2 \<noteq> None"
    by (rule opt_Some_cases)
  from 2(3) obtain host s3 where 3: "host = [] \<or> host = ''doi.org/''" "s2 = host @ s3"
      "match_identifier s3 \<noteq> None"
    by (rule opt_Some_cases)
  from 3(3) obtain ds rest tail where 4: "s3 = ''10.'' @ ds @ ''/'' @ rest @ tail"
      "ds \<noteq> []" "set ds \<subseteq> set decimal_digits" "rest \<noteq> []" "set rest \<inter> set whitespace = {}"
    unfolding match_identifier_iff by blast
  have s: "s = scheme @ dx @ host @ ''10.'' @ ds @ ''/'' @ rest @ tail"
    by (simp only: 1(2) 2(2) 3(2) 4(1))
  have dx: "dx \<in> {'''', ''dx.''}"
    using 2(1) by blast
  have host: "host \<in> {'''', ''doi.org/''}"
    using 3(1) by blast
  show "starts_with_doi s"
    unfolding starts_with_doi_def using s 1(1) dx host 4(2-5) by blast
next
  assume "starts_with_doi s"
  then obtain scheme dx host ds rest tail where
      s: "s = scheme @ dx @ host @ ''10.'' @ ds @ ''/'' @ rest @ tail"
      and p: "scheme \<in> {'''', ''http://'', ''https://''}" "dx \<in> {'''', ''dx.''}"
        "host \<in> {'''', ''doi.org/''}"
      and i: "ds \<noteq> []" "set ds \<subseteq> set decimal_digits" "rest \<noteq> []"
        "set rest \<inter> set whitespace = {}"
    unfolding starts_with_doi_def by blast
  have 4: "match_identifier (''10.'' @ ds @ ''/'' @ rest @ tail) \<noteq> None"
    by (simp only: match_identifier_complete [OF i]) simp
  have "host = [] \<or> host = ''doi.org/''"
    using p(3) by blast
  with 4 have 3: "opt ''doi.org/'' match_identifier (host @ ''10.'' @ ds @ ''/'' @ rest @ tail)
      \<noteq> None"
    by (rule opt_Some_intro)
  have "dx = [] \<or> dx = ''dx.''"
    using p(2) by blast
  with 3 have 2: "opt ''dx.'' (opt ''doi.org/'' match_identifier)
        (dx @ host @ ''10.'' @ ds @ ''/'' @ rest @ tail) \<noteq> None"
    by (rule opt_Some_intro)
  from 2 p(1) have "opt_scheme (opt ''dx.'' (opt ''doi.org/'' match_identifier))
        (scheme @ dx @ host @ ''10.'' @ ds @ ''/'' @ rest @ tail) \<noteq> None"
    by (rule opt_scheme_Some_intro)
  then show "doi_match s \<noteq> None"
    unfolding doi_match_def s .
qed

text \<open>
  C9. A string that is a DOI (\<^verbatim>\<open>10.\<close>, digits, \<^verbatim>\<open>/\<close>, characters other than whitespace),
  bare or after an optional \<^verbatim>\<open>http://\<close> or \<^verbatim>\<open>https://\<close>, an optional \<^verbatim>\<open>dx.\<close> and an
  optional \<^verbatim>\<open>doi.org/\<close>, is accepted by the constructor: \<^verbatim>\<open>self.doi\<close> is the bare
  identifier and \<^verbatim>\<open>self.url\<close> is \<^verbatim>\<open>https://doi.org/\<close> followed by it. A string that does
  not start with such a DOI gets \<^verbatim>\<open>ValueError\<close>. Neither case issues a request.
\<close>

theorem doi_constructor_accepts_exactly_dois:
  "(scheme \<in> {'''', ''http://'', ''https://''} \<and> dx \<in> {'''', ''dx.''}
      \<and> host \<in> {'''', ''doi.org/''}
      \<and> ds \<noteq> [] \<and> set ds \<subseteq> set decimal_digits
      \<and> rest \<noteq> [] \<and> set rest \<inter> set whitespace = {} \<longrightarrow>
    (DOI_init (scheme @ dx @ host @ ''10.'' @ ds @ ''/'' @ rest) log
       :: ('e exn + doi) \<times> http_request list) =
      (Inr \<lparr> doi_doi = ''10.'' @ ds @ ''/'' @ rest,
              doi_url = ''https://doi.org/'' @ ''10.'' @ ds @ ''/'' @ rest \<rparr>, log))
   \<and> (\<not> starts_with_doi s \<longrightarrow>
        (DOI_init s log :: ('e exn + doi) \<times> http_request list) = (Inl ValueError, log))"
proof (intro conjI impI)
  assume "scheme \<in> {'''', ''http://'', ''https://''} \<and> dx \<in> {'''', ''dx.''}
      \<and> host \<in> {'''', ''doi.org/''}
      \<and> ds \<noteq> [] \<and> set ds \<subseteq> set decimal_digits
      \<and> rest \<noteq> [] \<and> set rest \<inter> set whitespace = {}"
  then have "doi_match (scheme @ dx @ host @ ''10.'' @ ds @ ''/'' @ rest)
         = Some (''10.'' @ ds @ ''/'' @ rest)"
    by (intro doi_match_exact) simp_all
  then show "(DOI_init (scheme @ dx @ host @ ''10.'' @ ds @ ''/'' @ rest) log
       :: ('e exn + doi) \<times> http_request list) =
      (Inr \<lparr> doi_doi = ''10.'' @ ds @ ''/'' @ rest,
              doi_url = ''https://doi.org/'' @ ''10.'' @ ds @ ''/'' @ rest \<rparr>, log)"
    by (simp add: DOI_init_def)
next
  assume "\<not> starts_with_doi s"
  then have "doi_match s = None"
    using doi_match_iff [of s] by simp
  then show "(DOI_init s log :: ('e exn + doi) \<times> http_request list) = (Inl ValueError, log)"
    by (simp add: DOI_init_def)
qed

theorem doi_constructor_accepts_exactly_dois_witness:
  "(DOI_init ''https://doi.org/10.1039/d2sc03130b'' [] :: (nat exn + doi) \<times> http_request list)
     = (Inr \<lparr> doi_doi = ''10.1039/d2sc03130b'',
              doi_url = ''https://doi.org/10.1039/d2sc03130b'' \<rparr>, [])
   \<and> (DOI_init ''dx.doi.org/10.1093/nar/gkac267'' [] :: (nat exn + doi) \<times> http_request list)
     = (Inr \<lparr> doi_doi = ''10.1093/nar/gkac267'',
              doi_url = ''https://doi.org/10.1093/nar/gkac267'' \<rparr>, [])
   \<and> (DOI_init ''doi:10.3762/bjoc.17.8'' [] :: (nat exn + doi) \<times> http_request list)
     = (Inl ValueError, [])"
proof -
  have not: "\<not> starts_with_doi ''doi:10.3762/bjoc.17.8''"
    unfolding doi_match_iff [symmetric]
    by (simp add: doi_match_def opt_scheme_def opt_def match_identifier_def)
  have a: "''https://'' \<in> {'''', ''http://'', ''https://''} \<and> '''' \<in> {'''', ''dx.''}
      \<and> ''doi.org/'' \<in> {'''', ''doi.org/''}
      \<and> ''1039'' \<noteq> [] \<and> set ''1039'' \<subseteq> set decimal_digits
      \<and> ''d2sc03130b'' \<noteq> [] \<and> set ''d2sc03130b'' \<inter> set whitespace = {}"
    by (simp add: decimal_digits_def whitespace_def)
  have b: "'''' \<in> {'''', ''http://'', ''https://''} \<and> ''dx.'' \<in> {'''', ''dx.''}
      \<and> ''doi.org/'' \<in> {'''', ''doi.org/''}
      \<and> ''1093'' \<noteq> [] \<and> set ''1093'' \<subseteq> set decimal_digits
      \<and> ''nar/gkac267'' \<noteq> [] \<and> set ''nar/gkac267'' \<inter> set whitespace = {}"
    by (simp add: decimal_digits_def whitespace_def)
  show ?thesis
    using
      doi_constructor_accepts_exactly_dois
        [where ?'e = nat and scheme = "''https://''" and dx = "''''" and host = "''doi.org/''"
           and ds = "''1039''" and rest = "''d2sc03130b''" and log = "[]"
           and s = "''doi:10.3762/bjoc.17.8''"] a not
      doi_constructor_accepts_exactly_dois
        [where ?'e = nat and scheme = "''''" and dx = "''dx.''" and host = "''doi.org/''"
           and ds = "''1093''" and rest = "''nar/gkac267''" and log = "[]"
           and s = "''doi:10.3762/bjoc.17.8''"] b
    by simp
qed

end
